theory Spec2Isabelle
  imports Complex_Main
begin

section \<open>JavaScript helpers\<close>

text \<open>
  Text is a list of characters. \<open>String.prototype.trim\<close> strips white space and line
  terminators from both ends; of those, the ones below lie in the character range of
  \<^typ>\<open>char\<close> (tab, line feed, vertical tab, form feed, carriage return, space, no-break space).
\<close>

definition is_whitespace :: "char \<Rightarrow> bool" where
  "is_whitespace ch \<longleftrightarrow>
     ch \<in> set [CHR 0x09, CHR 0x0A, CHR 0x0B, CHR 0x0C, CHR 0x0D, CHR 0x20, CHR 0xA0]"

definition trim :: "string \<Rightarrow> string" where
  "trim s = rev (dropWhile is_whitespace (rev (dropWhile is_whitespace s)))"

fun starts_with :: "string \<Rightarrow> string \<Rightarrow> bool" where
  "starts_with s [] = True"
| "starts_with [] (y # ys) = False"
| "starts_with (x # xs) (y # ys) = (x = y \<and> starts_with xs ys)"

text \<open>\<open>s.includes(sub)\<close>: \<open>sub\<close> occurs in \<open>s\<close> as a contiguous run.\<close>

fun str_includes :: "string \<Rightarrow> string \<Rightarrow> bool" where
  "str_includes [] sub = (sub = [])"
| "str_includes (x # xs) sub = (starts_with (x # xs) sub \<or> str_includes xs sub)"

text \<open>Truthiness of a string: the empty string is falsy.\<close>

definition truthy :: "string \<Rightarrow> bool" where
  "truthy s \<longleftrightarrow> s \<noteq> []"

text \<open>Truthiness of a \<open>string | null\<close>: \<open>null\<close> and the empty string are falsy.\<close>

definition truthy_opt :: "string option \<Rightarrow> bool" where
  "truthy_opt e \<longleftrightarrow> (case e of None \<Rightarrow> False | Some s \<Rightarrow> truthy s)"

section \<open>Messages and the commands a handler issues\<close>

datatype sender = User | Assistant

text \<open>
  The \<open>Message\<close> type of ConversationLog: \<open>id\<close>, \<open>text\<close>, \<open>sender\<close>, \<open>timestamp\<close>.
  \<open>uuidv4()\<close> and \<open>new Date()\<close> are not functions of the state, so every handler that
  builds a message takes the fresh identifier and the clock reading as a pair.
\<close>

record message =
  msg_id :: string
  msg_text :: string
  msg_sender :: sender
  msg_timestamp :: nat

type_synonym fresh = "string \<times> nat"

definition mk_message :: "fresh \<Rightarrow> string \<Rightarrow> sender \<Rightarrow> message" where
  "mk_message f t who =
     \<lparr>msg_id = fst f, msg_text = t, msg_sender = who, msg_timestamp = snd f\<rparr>"

datatype toast_variant = Default | Destructive

text \<open>
  What a handler asks of its collaborators, in the order of the calls: a recognition
  object (named by its number where a component builds several), the speech service of
  \<open>useElevenLabs\<close>, the toast function, the network, the microphone utilities, the timer
  queue (\<open>SetTimeout\<close> with its delay in milliseconds and the callback), a promise the
  handler awaits (\<open>Await\<close> with the continuation), and the callbacks of a hook's owner.
  \<open>LogError\<close> is an error that the speech recognition code writes to the console.
\<close>

datatype 't action =
    RecognitionStart nat
  | RecognitionStop nat
  | RecognitionAbort nat
  | GenerateSpeech string
  | StopAudio
  | Toast string string toast_variant
  | Fetch string
  | CheckMicrophoneDevices
  | RequestMicrophoneAccess
  | SetTimeout nat 't
  | Await 't
  | OnTranscript string
  | OnFinalTranscript string
  | CleanupResources
  | RestartConversation
  | LogError string

fun is_toast :: "'t action \<Rightarrow> bool" where
  "is_toast (Toast title description variant) = True"
| "is_toast other = False"

fun is_generate :: "'t action \<Rightarrow> bool" where
  "is_generate (GenerateSpeech t) = True"
| "is_generate other = False"

text \<open>The callbacks a list of commands hands to the timer queue or to a promise, with their delays.\<close>

fun timers_of :: "'t action list \<Rightarrow> (nat \<times> 't) list" where
  "timers_of [] = []"
| "timers_of (SetTimeout d t # as) = (d, t) # timers_of as"
| "timers_of (Await t # as) = (0, t) # timers_of as"
| "timers_of (a # as) = timers_of as"

definition remove_nth :: "nat \<Rightarrow> 'a list \<Rightarrow> 'a list" where
  "remove_nth n xs = take n xs @ drop (Suc n) xs"

section \<open>State shared by the two coordinators\<close>

text \<open>
  Both the component \<open>ConversationInterface\<close> and the hook \<open>useConversationState\<close> hold
  these \<open>useState\<close> cells; \<open>isGenerating\<close>, \<open>isPlaying\<close> and \<open>error\<close> are the
  cells that \<open>useElevenLabs\<close> exposes to them.
\<close>

record conversation =
  messages :: "message list"
  isListening :: bool
  isMicMuted :: bool
  isMuted :: bool
  volume :: rat
  isGenerating :: bool
  isPlaying :: bool
  error :: "string option"


section \<open>ConversationInterface (the self-contained component)\<close>

datatype input_mode = Voice | TextMode

text \<open>
  The \<open>useState\<close> cells and the three refs of the component. The effect of lines 427-535
  builds a new recognition object every time it runs, so the objects are numbered in the
  order they are built, and \<open>recognitionRef\<close> holds the number of the object that
  \<open>recognitionRef.current\<close> points to, if any.

  A closure reads the state cells of the render that created it, and the refs and the
  argument of a functional update (\<open>setMessages(prev => ...)\<close>) at the time it runs. So a
  handler takes two states: \<open>c\<close>, the render it closed over, and \<open>s\<close>, the state it runs in.
\<close>

record ci_state = conversation +
  transcript :: string
  inputMode :: input_mode
  textInput :: string
  autoStartMic :: bool
  isMicAvailable :: "bool option"
  ttsError :: "string option"
  recognitionRef :: "nat option"
  hasRequestedMicPermission :: bool
  hasAttemptedSpeechRecognition :: bool

datatype ci_task =
    AutoStartTimer ci_state
  | StartListeningTimer ci_state
  | StartListeningResume
  | ReplyTimer string ci_state
  | RestartTimer nat ci_state
  | CooldownTimer
  | ToggleResume ci_state
  | CreateRecognition ci_state

type_synonym ci_result = "ci_state \<times> ci_task action list"

text \<open>\<open>if (recognitionRef.current) recognitionRef.current.stop()\<close>.\<close>

definition stop_current :: "ci_state \<Rightarrow> ci_task action list" where
  "stop_current s = (case recognitionRef s of None \<Rightarrow> [] | Some k \<Rightarrow> [RecognitionStop k])"

text \<open>\<open>requestMicrophonePermission\<close>, up to its \<open>await\<close>.\<close>

definition requestMicrophonePermission :: "ci_state \<Rightarrow> ci_result" where
  "requestMicrophonePermission s =
     (if hasRequestedMicPermission s then (s, [])
      else (s\<lparr>hasRequestedMicPermission := True\<rparr>, [RequestMicrophoneAccess]))"

text \<open>
  \<open>startListening\<close>, lines 636-657: the three guards, then the permission request; the
  code after \<open>await\<close> is \<open>startListening_resume\<close>, which calls \<open>start()\<close> on the object
  that \<open>recognitionRef.current\<close> points to by then. An exception there is caught and logged.
\<close>

definition startListening :: "ci_state \<Rightarrow> ci_state \<Rightarrow> ci_result" where
  "startListening c s =
     (if isPlaying c \<or> isGenerating c \<or> isMicMuted c then (s, [])
      else if isListening c then (s, [])
      else if recognitionRef s = None then (s, [])
      else (let (s', as) = requestMicrophonePermission s
            in (s', as @ [Await StartListeningResume])))"

definition startListening_resume :: "ci_state \<Rightarrow> ci_result" where
  "startListening_resume s =
     (s, case recognitionRef s of
           Some k \<Rightarrow> [RecognitionStart k]
         | None \<Rightarrow> [LogError ''Error starting speech recognition:''])"

text \<open>
  \<open>processUserInput\<close>, lines 594-634, up to the timer, and the timer's callback
  \<open>processUserInput_reply\<close>, lines 610-633.
\<close>

definition processUserInput :: "string \<Rightarrow> fresh \<Rightarrow> ci_state \<Rightarrow> ci_state \<Rightarrow> ci_result" where
  "processUserInput txt f c s =
     (if \<not> truthy (trim txt) then (s, [])
      else
        (s\<lparr>messages := messages s @ [mk_message f txt User]\<rparr>,
         (if isListening c then stop_current s else [])
           @ [SetTimeout 1000 (ReplyTimer txt c)]))"

definition assistantResponse :: "string \<Rightarrow> string" where
  "assistantResponse txt =
     ''I understand you said: '' @ txt @ ''. I'm here to help you with any questions or tasks.''"

definition processUserInput_reply :: "string \<Rightarrow> fresh \<Rightarrow> ci_state \<Rightarrow> ci_state \<Rightarrow> ci_result" where
  "processUserInput_reply txt f c s =
     (let s' = s\<lparr>messages := messages s @ [mk_message f (assistantResponse txt) Assistant]\<rparr>
      in if \<not> isMuted c \<and> \<not> truthy_opt (ttsError c) then
           (s', (if isListening c then stop_current s else [])
                  @ [GenerateSpeech (assistantResponse txt)])
         else if autoStartMic c \<and> \<not> isPlaying c \<and> \<not> isGenerating c then
           (s', [SetTimeout 300 (StartListeningTimer c)])
         else (s', []))"

text \<open>
  The effect of lines 410-425, which React runs after a render in which one of
  \<open>isGenerating\<close>, \<open>isPlaying\<close>, \<open>isListening\<close>, \<open>autoStartMic\<close>, \<open>isMicMuted\<close> has changed.
  It closes over the render it follows, so it reads the state it runs in.
\<close>

definition audio_effect :: "ci_state \<Rightarrow> ci_result" where
  "audio_effect s =
     (if isGenerating s \<or> isPlaying s then
        (case recognitionRef s of
           Some k \<Rightarrow> (s\<lparr>isListening := False\<rparr>, [RecognitionStop k])
         | None \<Rightarrow> (s, []))
      else if autoStartMic s \<and> \<not> isListening s \<and> \<not> isGenerating s \<and> \<not> isPlaying s
                \<and> \<not> isMicMuted s then
        (s, [SetTimeout 500 (AutoStartTimer s)])
      else (s, []))"

text \<open>
  The effect of lines 427-535, which React runs after a render in which one of
  \<open>inputMode\<close>, \<open>autoStartMic\<close>, \<open>isMicMuted\<close>, \<open>isPlaying\<close>, \<open>isGenerating\<close> has changed.
  \<open>recognition_init\<close> is the part before its two \<open>await\<close>s, in the render \<open>c\<close>;
  \<open>recognition_create\<close> is the part after them, which builds object number \<open>k\<close> with
  callbacks that close over \<open>c\<close> and stores it in \<open>recognitionRef.current\<close>, on a platform
  that has no \<open>SpeechRecognition\<close>, whose constructor throws, or that has one;
  \<open>recognition_cleanup\<close> is the cleanup, which aborts the object that
  \<open>recognitionRef.current\<close> points to when it runs.
\<close>

datatype platform = Unsupported | ConstructorThrows | Supported

definition recognition_init :: "ci_state \<Rightarrow> ci_state \<Rightarrow> ci_result" where
  "recognition_init c s =
     (s\<lparr>isMicAvailable := Some True\<rparr>,
      [CheckMicrophoneDevices, RequestMicrophoneAccess, Await (CreateRecognition c)])"

definition recognition_create :: "platform \<Rightarrow> nat \<Rightarrow> ci_state \<Rightarrow> ci_result" where
  "recognition_create p k s =
     (case p of
        Supported \<Rightarrow> (s\<lparr>recognitionRef := Some k\<rparr>, [])
      | ConstructorThrows \<Rightarrow> (s, [LogError ''Error setting up speech recognition:''])
      | Unsupported \<Rightarrow>
          (s, [Toast ''Browser Support Note''
                 ''Your browser may not fully support speech recognition. Text input is available.''
                 Default]))"

definition recognition_cleanup :: "ci_state \<Rightarrow> ci_task action list" where
  "recognition_cleanup s =
     (case recognitionRef s of None \<Rightarrow> [] | Some k \<Rightarrow> [RecognitionAbort k])"

text \<open>
  The callbacks of recognition object number \<open>k\<close>, lines 456-512, which close over the
  render \<open>c\<close> the object was built in. \<open>onend\<close> restarts the object it belongs to.
\<close>

definition recognition_onstart :: "ci_state \<Rightarrow> ci_result" where
  "recognition_onstart s = (s\<lparr>isListening := True\<rparr>, [])"

definition recognition_onend :: "nat \<Rightarrow> ci_state \<Rightarrow> ci_state \<Rightarrow> ci_result" where
  "recognition_onend k c s =
     (let s1 = s\<lparr>isListening := False\<rparr>
      in if inputMode c = Voice \<and> autoStartMic c \<and> \<not> isMicMuted c
              \<and> \<not> hasAttemptedSpeechRecognition s then
           (s1\<lparr>hasAttemptedSpeechRecognition := True\<rparr>, [SetTimeout 1000 (RestartTimer k c)])
         else (s1, []))"

text \<open>
  The callback of the 1000 ms timer of \<open>onend\<close>, and the callback of the 5000 ms timer it
  sets. A throwing \<open>start()\<close> is caught and logged, and the second timer is set either way.
\<close>

definition restart_timer :: "nat \<Rightarrow> ci_state \<Rightarrow> ci_state \<Rightarrow> ci_result" where
  "restart_timer k c s =
     (if \<not> isPlaying c \<and> \<not> isGenerating c then
        (s, [RecognitionStart k, SetTimeout 5000 CooldownTimer])
      else (s, []))"

definition cooldown_timer :: "ci_state \<Rightarrow> ci_result" where
  "cooldown_timer s = (s\<lparr>hasAttemptedSpeechRecognition := False\<rparr>, [])"

text \<open>
  \<open>onresult\<close> reads the transcript and the \<open>isFinal\<close> mark of the last result of the event;
  they are its first two arguments here.
\<close>

definition recognition_onresult ::
  "string \<Rightarrow> bool \<Rightarrow> fresh \<Rightarrow> ci_state \<Rightarrow> ci_state \<Rightarrow> ci_result" where
  "recognition_onresult txt isFinal f c s =
     (let s1 = s\<lparr>transcript := txt\<rparr>
      in if isFinal then
           (let (s2, as) = processUserInput txt f c s1
            in (s2\<lparr>transcript := []\<rparr>, as @ stop_current s))
         else (s1, []))"

definition recognition_onerror :: "string \<Rightarrow> ci_state \<Rightarrow> ci_result" where
  "recognition_onerror err s =
     (s\<lparr>isListening := False\<rparr>,
      LogError ''Speech recognition error'' #
      (if err = ''not-allowed'' \<or> err = ''service-not-allowed'' then
         [Toast ''Microphone Note''
            ''Microphone access is needed for voice input. You can also use text input.'' Default]
       else []))"

text \<open>
  The effect of lines 537-560, which React runs after a render in which the \<open>error\<close> of
  \<open>useElevenLabs\<close> has changed.
\<close>

definition tts_error_effect :: "fresh \<Rightarrow> ci_state \<Rightarrow> ci_result" where
  "tts_error_effect f s =
     (case error s of
        None \<Rightarrow> (s, [])
      | Some e \<Rightarrow>
          if \<not> truthy e then (s, [])
          else
            (s\<lparr>ttsError := Some e,
               messages := messages s @
                 [mk_message f
                    (''I'm having trouble with my voice output. '' @
                       (if str_includes e ''quota'' then ''The API quota has been exceeded.''
                        else ''Please check if the Voice ID is correct.''))
                    Assistant]\<rparr>,
             if \<not> str_includes e ''quota'' then [Toast ''Speech Generation Note'' e Default]
             else []))"

text \<open>The effect of lines 562-579, run once after the first render.\<close>

definition welcome_effect :: "fresh \<Rightarrow> ci_state \<Rightarrow> ci_result" where
  "welcome_effect f s =
     (s\<lparr>messages := [mk_message f ''Hello! How can I help you today?'' Assistant]\<rparr>,
      if \<not> isMuted s then [GenerateSpeech ''Hello! How can I help you today?''] else [])"

text \<open>
  \<open>toggleListening\<close>, lines 659-677; \<open>toggleListening_resume\<close> is the code after the
  300 ms pause, which runs at once when no audio was active.
\<close>

definition toggleListening_resume :: "ci_state \<Rightarrow> ci_state \<Rightarrow> ci_result" where
  "toggleListening_resume c s =
     (if isListening c then (s, stop_current s) else startListening c s)"

definition toggleListening :: "ci_state \<Rightarrow> ci_state \<Rightarrow> ci_result" where
  "toggleListening c s =
     (if isMicMuted c then (s, [])
      else if isPlaying c \<or> isGenerating c then (s, [StopAudio, SetTimeout 300 (ToggleResume c)])
      else toggleListening_resume c s)"

definition handleMicMuteToggle :: "ci_state \<Rightarrow> ci_state \<Rightarrow> ci_result" where
  "handleMicMuteToggle c s =
     (let newMuteState = \<not> isMicMuted c
      in (s\<lparr>isMicMuted := newMuteState\<rparr>,
          (if \<not> newMuteState \<and> autoStartMic c \<and> \<not> isPlaying c \<and> \<not> isGenerating c
           then [SetTimeout 300 (StartListeningTimer c)] else [])
          @ (if newMuteState \<and> isListening c then stop_current s else [])))"

definition handleTextSubmit :: "fresh \<Rightarrow> ci_state \<Rightarrow> ci_state \<Rightarrow> ci_result" where
  "handleTextSubmit f c s =
     (if truthy (trim (textInput c)) then
        (let (s', as) = processUserInput (textInput c) f c s in (s'\<lparr>textInput := []\<rparr>, as))
      else (s, []))"

definition handleMuteToggle :: "ci_state \<Rightarrow> ci_state \<Rightarrow> ci_result" where
  "handleMuteToggle c s = (s\<lparr>isMuted := \<not> isMuted c\<rparr>, if isPlaying c then [StopAudio] else [])"

definition handleVolumeChange :: "rat \<Rightarrow> ci_state \<Rightarrow> ci_result" where
  "handleVolumeChange v s = (s\<lparr>volume := v\<rparr>, [])"

text \<open>The initial values of the \<open>useState\<close> and \<open>useRef\<close> calls of the component.\<close>

definition ci_initial :: ci_state where
  "ci_initial =
     \<lparr>messages = [], isListening = False, isMicMuted = False, isMuted = False, volume = 4 / 5,
      isGenerating = False, isPlaying = False, error = None,
      transcript = [], inputMode = Voice, textInput = [], autoStartMic = True,
      isMicAvailable = None, ttsError = None, recognitionRef = None,
      hasRequestedMicPermission = False, hasAttemptedSpeechRecognition = False\<rparr>"

section \<open>ConversationInterface over time\<close>

text \<open>
  The component at a point in time: the render React has committed (\<open>cur\<close>); the render
  whose effects ran last (\<open>rendered\<close>); the callbacks that sit in the timer queue or wait
  for a promise, each with its delay; for every recognition object built so far, in the
  order they were built, the render its callbacks close over; and the commands issued so
  far.
\<close>

record ci_config =
  cur :: ci_state
  rendered :: ci_state
  pending :: "(nat \<times> ci_task) list"
  objects :: "ci_state list"
  commands :: "ci_task action list"

text \<open>
  What can happen to the component: \<open>useElevenLabs\<close> stores a new \<open>isGenerating\<close> and
  \<open>isPlaying\<close>, or a new \<open>error\<close>; a recognition object calls one of its callbacks; a
  pending callback runs (on the platform named, if it is the one that builds a recognition
  object); React runs the effects of the committed render; the user acts on the controls
  (whose handlers are those of the committed render).
\<close>

datatype ci_event =
    SpeechStatus bool bool
  | SpeechError "string option"
  | OnStart nat
  | OnEnd nat
  | OnResult nat string bool fresh
  | OnError nat string
  | Fire nat fresh platform
  | Flush fresh
  | ClickToggleListening
  | ClickMicMute
  | ClickMute
  | ChangeVolume rat
  | SubmitText fresh
  | TypeText string
  | SwitchMode input_mode

text \<open>A pending callback, run when \<open>k\<close> objects have been built so far.\<close>

fun run_task :: "ci_task \<Rightarrow> fresh \<Rightarrow> platform \<Rightarrow> nat \<Rightarrow> ci_state \<Rightarrow> ci_result" where
  "run_task (AutoStartTimer c) f p k s = startListening c s"
| "run_task (StartListeningTimer c) f p k s = startListening c s"
| "run_task StartListeningResume f p k s = startListening_resume s"
| "run_task (ReplyTimer txt c) f p k s = processUserInput_reply txt f c s"
| "run_task (RestartTimer j c) f p k s = restart_timer j c s"
| "run_task CooldownTimer f p k s = cooldown_timer s"
| "run_task (ToggleResume c) f p k s = toggleListening_resume c s"
| "run_task (CreateRecognition c) f p k s = recognition_create p k s"

text \<open>The closure of the object a callback builds, if it builds one.\<close>

fun built :: "ci_task \<Rightarrow> platform \<Rightarrow> ci_state list" where
  "built (CreateRecognition c) Supported = [c]"
| "built t p = []"

text \<open>
  The handler of each event, given the closures of the objects built so far. Only an object
  that has been built can call back, and its callbacks read the render it was built in.
\<close>

fun ci_handle :: "ci_event \<Rightarrow> ci_state list \<Rightarrow> ci_state \<Rightarrow> ci_result" where
  "ci_handle (SpeechStatus g p) objs s = (s\<lparr>isGenerating := g, isPlaying := p\<rparr>, [])"
| "ci_handle (SpeechError e) objs s = (s\<lparr>error := e\<rparr>, [])"
| "ci_handle (OnStart k) objs s = (if k < length objs then recognition_onstart s else (s, []))"
| "ci_handle (OnEnd k) objs s =
     (if k < length objs then recognition_onend k (objs ! k) s else (s, []))"
| "ci_handle (OnResult k txt fin f) objs s =
     (if k < length objs then recognition_onresult txt fin f (objs ! k) s else (s, []))"
| "ci_handle (OnError k err) objs s =
     (if k < length objs then recognition_onerror err s else (s, []))"
| "ci_handle (Fire n f p) objs s = (s, [])"
| "ci_handle (Flush f) objs s = (s, [])"
| "ci_handle ClickToggleListening objs s = toggleListening s s"
| "ci_handle ClickMicMute objs s = handleMicMuteToggle s s"
| "ci_handle ClickMute objs s = handleMuteToggle s s"
| "ci_handle (ChangeVolume v) objs s = handleVolumeChange v s"
| "ci_handle (SubmitText f) objs s = handleTextSubmit f s s"
| "ci_handle (TypeText t) objs s = (s\<lparr>textInput := t\<rparr>, [])"
| "ci_handle (SwitchMode m) objs s = (s\<lparr>inputMode := m\<rparr>, [])"

text \<open>
  An event runs its handler, or the pending callback it names, which leaves the queue; the
  callbacks the handler sets join the queue, and React commits the render with the new
  state. The effects of that render have not run yet.
\<close>

definition ci_dispatch :: "ci_event \<Rightarrow> ci_config \<Rightarrow> ci_config" where
  "ci_dispatch e cfg =
     (case e of
        Fire n f p \<Rightarrow>
          (if n < length (pending cfg) then
             (let t = snd (pending cfg ! n);
                  (s, as) = run_task t f p (length (objects cfg)) (cur cfg)
              in cfg\<lparr>cur := s,
                     pending := remove_nth n (pending cfg) @ timers_of as,
                     objects := objects cfg @ built t p,
                     commands := commands cfg @ as\<rparr>)
           else cfg)
      | _ \<Rightarrow>
          (let (s, as) = ci_handle e (objects cfg) (cur cfg)
           in cfg\<lparr>cur := s, pending := pending cfg @ timers_of as, commands := commands cfg @ as\<rparr>))"

text \<open>
  The dependencies of the effects of lines 410-425 and of lines 427-535; the effect of
  lines 537-560 depends on \<open>error\<close>. The effects of the committed render are due when one
  of these differs from the render whose effects ran last.
\<close>

definition audio_deps :: "ci_state \<Rightarrow> bool \<times> bool \<times> bool \<times> bool \<times> bool" where
  "audio_deps s = (isGenerating s, isPlaying s, isListening s, autoStartMic s, isMicMuted s)"

definition init_deps :: "ci_state \<Rightarrow> input_mode \<times> bool \<times> bool \<times> bool \<times> bool" where
  "init_deps s = (inputMode s, autoStartMic s, isMicMuted s, isPlaying s, isGenerating s)"

definition settled :: "ci_config \<Rightarrow> bool" where
  "settled cfg \<longleftrightarrow>
     audio_deps (cur cfg) = audio_deps (rendered cfg)
     \<and> init_deps (cur cfg) = init_deps (rendered cfg)
     \<and> error (cur cfg) = error (rendered cfg)"

fun is_auto_start :: "nat \<times> ci_task \<Rightarrow> bool" where
  "is_auto_start (d, AutoStartTimer c) = True"
| "is_auto_start other = False"

text \<open>
  React runs the effects of the committed render: of the effects whose dependencies have
  changed, first the cleanups of their last run (the first clears its 500 ms timer if it
  had set one, the second aborts the current recognition object), then the effects, in the
  order of the source. They close over the committed render; the cells they set are not
  read by one another.
\<close>

definition ci_flush :: "fresh \<Rightarrow> ci_config \<Rightarrow> ci_config" where
  "ci_flush f cfg =
     (let c = cur cfg;
          audio = (audio_deps c \<noteq> audio_deps (rendered cfg));
          init = (init_deps c \<noteq> init_deps (rendered cfg));
          tts = (error c \<noteq> error (rendered cfg));
          kept = (if audio then filter (\<lambda>t. \<not> is_auto_start t) (pending cfg) else pending cfg);
          a0 = (if init then recognition_cleanup c else []);
          (s1, a1) = (if audio then audio_effect c else (c, []));
          (s2, a2) = (if init then recognition_init c s1 else (s1, []));
          (s3, a3) = (if tts then tts_error_effect f s2 else (s2, []))
      in cfg\<lparr>cur := s3, rendered := c,
             pending := kept @ timers_of (a1 @ a2 @ a3),
             commands := commands cfg @ a0 @ a1 @ a2 @ a3\<rparr>)"

text \<open>
  React applies the state updates of a handler only after the effects of the last render
  have run. So a step is either the effects of the committed render, or, once no effect is
  due, an event; an event that arrives while effects are due waits for them.
\<close>

definition ci_step :: "ci_event \<Rightarrow> ci_config \<Rightarrow> ci_config" where
  "ci_step e cfg =
     (case e of
        Flush f \<Rightarrow> ci_flush f cfg
      | _ \<Rightarrow> if settled cfg then ci_dispatch e cfg else cfg)"

fun ci_run :: "ci_event list \<Rightarrow> ci_config \<Rightarrow> ci_config" where
  "ci_run [] cfg = cfg"
| "ci_run (e # es) cfg = ci_run es (ci_step e cfg)"

text \<open>The component after its first render: the four effects have run once, in their order.\<close>

definition ci_mounted :: "fresh \<Rightarrow> ci_config" where
  "ci_mounted f =
     (let (s1, a1) = audio_effect ci_initial;
          (s2, a2) = recognition_init ci_initial s1;
          (s3, a3) = tts_error_effect f s2;
          (s4, a4) = welcome_effect f s3
      in \<lparr>cur = s4, rendered = ci_initial, pending = timers_of (a1 @ a2 @ a3 @ a4),
          objects = [], commands = a1 @ a2 @ a3 @ a4\<rparr>)"

inductive ci_reachable :: "ci_config \<Rightarrow> bool" where
  mounted: "ci_reachable (ci_mounted f)"
| step: "ci_reachable cfg \<Longrightarrow> ci_reachable (ci_step e cfg)"

text \<open>
  A call of \<open>start()\<close> on a recognition object. An event is a restart attempt of \<open>onend\<close>
  when it runs a pending \<open>RestartTimer\<close> whose callback calls \<open>start()\<close>, and a cooldown
  expiry when it runs a pending \<open>CooldownTimer\<close>. An event is the user's when it is an
  action on the controls.
\<close>

fun is_start :: "'t action \<Rightarrow> bool" where
  "is_start (RecognitionStart k) = True"
| "is_start other = False"

definition starts :: "'t action list \<Rightarrow> nat" where
  "starts as = length (filter is_start as)"

fun is_restart_timer :: "nat \<times> ci_task \<Rightarrow> bool" where
  "is_restart_timer (d, RestartTimer k c) = True"
| "is_restart_timer other = False"

fun is_cooldown_timer :: "nat \<times> ci_task \<Rightarrow> bool" where
  "is_cooldown_timer (d, CooldownTimer) = True"
| "is_cooldown_timer other = False"

fun is_user_event :: "ci_event \<Rightarrow> bool" where
  "is_user_event ClickToggleListening = True"
| "is_user_event ClickMicMute = True"
| "is_user_event ClickMute = True"
| "is_user_event (ChangeVolume v) = True"
| "is_user_event (SubmitText f) = True"
| "is_user_event (TypeText t) = True"
| "is_user_event (SwitchMode m) = True"
| "is_user_event other = False"

definition attempts_restart :: "ci_event \<Rightarrow> ci_config \<Rightarrow> bool" where
  "attempts_restart e cfg =
     (case e of
        Fire n f p \<Rightarrow>
          settled cfg \<and> n < length (pending cfg) \<and> is_restart_timer (pending cfg ! n)
          \<and> 0 < starts (snd (run_task (snd (pending cfg ! n)) f p (length (objects cfg)) (cur cfg)))
      | _ \<Rightarrow> False)"

definition cooldown_expires :: "ci_event \<Rightarrow> ci_config \<Rightarrow> bool" where
  "cooldown_expires e cfg =
     (case e of
        Fire n f p \<Rightarrow>
          settled cfg \<and> n < length (pending cfg) \<and> is_cooldown_timer (pending cfg ! n)
      | _ \<Rightarrow> False)"

fun restart_attempts :: "ci_event list \<Rightarrow> ci_config \<Rightarrow> nat" where
  "restart_attempts [] cfg = 0"
| "restart_attempts (e # es) cfg =
     (if attempts_restart e cfg then 1 else 0) + restart_attempts es (ci_step e cfg)"

fun cooldown_expiries :: "ci_event list \<Rightarrow> ci_config \<Rightarrow> nat" where
  "cooldown_expiries [] cfg = 0"
| "cooldown_expiries (e # es) cfg =
     (if cooldown_expires e cfg then 1 else 0) + cooldown_expiries es (ci_step e cfg)"

text \<open>The restart and cooldown callbacks that are pending.\<close>

definition pending_restarts :: "ci_config \<Rightarrow> nat" where
  "pending_restarts cfg = length (filter is_restart_timer (pending cfg))"

definition pending_cooldowns :: "ci_config \<Rightarrow> nat" where
  "pending_cooldowns cfg = length (filter is_cooldown_timer (pending cfg))"

section \<open>useConversationState (the hook of the second coordinator)\<close>

datatype permission = Granted | Denied | Prompt

text \<open>
  The cells of the hook. \<open>microphonePermission\<close> is the \<open>permissionState\<close> that
  \<open>useSpeechRecognition\<close> exposes, a \<open>PermissionState | null\<close>.
\<close>

record hs_state = conversation +
  isLoading :: bool
  shouldAutoListen :: bool
  currentTranscript :: string
  microphonePermission :: "permission option"

datatype hs_task =
    ReplySettled string hs_state
  | SpeechSettled hs_state
  | ListenTimer hs_state
  | AutoListenTimer hs_state
  | PlaybackEndedTimer hs_state

type_synonym hs_result = "hs_state \<times> hs_task action list"

text \<open>
  Modelled from the spec: \<open>createUserMessage\<close> and \<open>createAssistantMessage\<close> of
  \<open>utils/messageUtils\<close>, which is not among the sources. A Message is created with a unique
  id, the text, its sender and its creation time.
\<close>

definition createUserMessage :: "fresh \<Rightarrow> string \<Rightarrow> message" where
  "createUserMessage f t = mk_message f t User"

definition createAssistantMessage :: "fresh \<Rightarrow> string \<Rightarrow> message" where
  "createAssistantMessage f t = mk_message f t Assistant"

text \<open>Decimal digits of a number, as a template literal prints a status code.\<close>

fun show_nat :: "nat \<Rightarrow> string" where
  "show_nat n =
     (if n < 10 then [char_of (48 + n)] else show_nat (n div 10) @ [char_of (48 + n mod 10)])"

declare show_nat.simps [simp del]

text \<open>
  How the \<open>fetch\<close> of \<open>sendMessage\<close> ends: an exception with its message (the request, or
  reading the body, fails); a response that is not \<open>ok\<close>, with its status, the
  \<open>detail.status\<close> of its body if there is one, and the \<open>detail.message\<close>; or a response that
  is \<open>ok\<close>, with the content of its first choice.
\<close>

datatype fetch_outcome =
    FetchThrows string
  | HttpError nat "string option" string
  | HttpOk string

text \<open>How the awaited \<open>generateSpeech\<close> ends: it resolves, or rejects with a message.\<close>

datatype speech_outcome = SpeechResolved | SpeechRejected string

definition http_error_message :: "string \<Rightarrow> nat \<Rightarrow> string option \<Rightarrow> string \<Rightarrow> string" where
  "http_error_message agentId status detail_status detail_message =
     (if detail_status = Some ''quota_exceeded'' then
        ''ElevenLabs API quota exceeded: '' @ detail_message
      else if status = 404 then
        ''ElevenLabs agent not found: The agent ID '' @ [CHR 0x22] @ agentId @ [CHR 0x22]
          @ '' does not exist or is incorrect.''
      else ''HTTP error! Status: '' @ show_nat status)"

text \<open>The callback of the 1000 ms timers of lines 343-348 and 358-363.\<close>

definition listen_timer :: "hs_state \<Rightarrow> hs_state \<Rightarrow> hs_result" where
  "listen_timer c s =
     (if \<not> isMicMuted c \<and> microphonePermission c \<noteq> Some Denied
      then (s\<lparr>isListening := True\<rparr>, []) else (s, []))"

text \<open>The \<open>catch\<close> block of \<open>sendMessage\<close>, lines 350-363, followed by its \<open>finally\<close>.\<close>

definition sendMessage_catch :: "string \<Rightarrow> hs_state \<Rightarrow> hs_state \<Rightarrow> hs_result" where
  "sendMessage_catch msg c s =
     (s\<lparr>isLoading := False\<rparr>,
      [Toast ''Error'' (if truthy msg then msg else ''Failed to send message'') Destructive,
       SetTimeout 1000 (ListenTimer c)])"

text \<open>
  \<open>sendMessage\<close>, lines 300-367, in the three pieces its two \<open>await\<close>s cut it into: up to the
  \<open>fetch\<close>; from the settled \<open>fetch\<close> to \<open>generateSpeech\<close>; and after \<open>generateSpeech\<close> has
  settled. Each piece that ends the function runs the \<open>finally\<close> block.
\<close>

definition sendMessage :: "string \<Rightarrow> fresh \<Rightarrow> hs_state \<Rightarrow> hs_state \<Rightarrow> hs_result" where
  "sendMessage txt f c s =
     (if \<not> truthy (trim txt) then (s, [])
      else
        (s\<lparr>isLoading := True, messages := messages s @ [createUserMessage f txt]\<rparr>,
         [Fetch txt, Await (ReplySettled txt c)]))"

definition sendMessage_reply ::
  "string \<Rightarrow> fetch_outcome \<Rightarrow> fresh \<Rightarrow> hs_state \<Rightarrow> hs_state \<Rightarrow> hs_result" where
  "sendMessage_reply agentId outcome f c s =
     (case outcome of
        FetchThrows msg \<Rightarrow> sendMessage_catch msg c s
      | HttpError status detail_status detail_message \<Rightarrow>
          sendMessage_catch (http_error_message agentId status detail_status detail_message) c s
      | HttpOk responseText \<Rightarrow>
          (let s1 = s\<lparr>messages := messages s @ [createAssistantMessage f responseText]\<rparr>
           in if \<not> isMuted c \<and> volume c > 0 then
                (s1, [GenerateSpeech responseText, Await (SpeechSettled c)])
              else (s1\<lparr>isLoading := False\<rparr>, [SetTimeout 1000 (ListenTimer c)])))"

definition sendMessage_speech :: "speech_outcome \<Rightarrow> hs_state \<Rightarrow> hs_state \<Rightarrow> hs_result" where
  "sendMessage_speech outcome c s =
     (case outcome of
        SpeechResolved \<Rightarrow> (s\<lparr>shouldAutoListen := True, isLoading := False\<rparr>, [])
      | SpeechRejected msg \<Rightarrow> sendMessage_catch msg c s)"

text \<open>
  The callbacks the hook hands to \<open>useSpeechRecognition\<close>, lines 165-175. The call of
  \<open>sendMessage\<close> is not awaited, so \<open>onFinalTranscript\<close> goes on as soon as \<open>sendMessage\<close>
  reaches its \<open>fetch\<close>.
\<close>

definition onTranscript :: "string \<Rightarrow> hs_state \<Rightarrow> hs_result" where
  "onTranscript txt s = (s\<lparr>currentTranscript := txt\<rparr>, [])"

definition onFinalTranscript :: "string \<Rightarrow> fresh \<Rightarrow> hs_state \<Rightarrow> hs_state \<Rightarrow> hs_result" where
  "onFinalTranscript txt f c s =
     (if truthy (trim txt) then
        (let (s1, as) = sendMessage txt f c s
         in (s1\<lparr>isListening := False, currentTranscript := []\<rparr>, as))
      else (s\<lparr>currentTranscript := []\<rparr>, []))"

text \<open>The two effects that re-arm the microphone, lines 224-254, and their timers.\<close>

definition auto_listen_effect :: "hs_state \<Rightarrow> hs_result" where
  "auto_listen_effect s =
     (if shouldAutoListen s \<and> \<not> isPlaying s \<and> \<not> isGenerating s then
        (s\<lparr>shouldAutoListen := False\<rparr>, [SetTimeout 750 (AutoListenTimer s)])
      else (s, []))"

definition auto_listen_timer :: "hs_state \<Rightarrow> hs_state \<Rightarrow> hs_result" where
  "auto_listen_timer c s =
     (if \<not> isMicMuted c \<and> microphonePermission c \<noteq> Some Denied
      then (s\<lparr>isListening := True\<rparr>, []) else (s, []))"

definition playback_ended_effect :: "hs_state \<Rightarrow> hs_result" where
  "playback_ended_effect s =
     (if \<not> isPlaying s \<and> \<not> isGenerating s \<and> \<not> isListening s \<and> \<not> isMicMuted s
           \<and> microphonePermission s \<noteq> Some Denied then
        (s, [SetTimeout 500 (PlaybackEndedTimer s)])
      else (s, []))"

definition playback_ended_timer :: "hs_state \<Rightarrow> hs_state \<Rightarrow> hs_result" where
  "playback_ended_timer c s =
     (if \<not> isListening c \<and> \<not> isMicMuted c then (s\<lparr>isListening := True\<rparr>, []) else (s, []))"


definition toggleMute :: "hs_state \<Rightarrow> hs_state \<Rightarrow> hs_result" where
  "toggleMute c s = (s\<lparr>isMuted := \<not> isMuted c\<rparr>, [])"

section \<open>useSpeechRecognition\<close>

text \<open>
  The recognition object of the platform is either capturing or not. \<open>start()\<close> on an
  object that is capturing throws \<open>InvalidStateError\<close> (the case the hook's comment
  \<open>If it's already running, restart it\<close> is written for); \<open>stop()\<close> ends capture and does
  nothing on an object that is not capturing.
\<close>

datatype engine_error = InvalidStateError

definition engine_start :: "bool \<Rightarrow> engine_error + bool" where
  "engine_start active = (if active then Inl InvalidStateError else Inr True)"

definition engine_stop :: "bool \<Rightarrow> engine_error + bool" where
  "engine_stop active = Inr False"

text \<open>
  The cells of the hook: \<open>transcript\<close>, \<open>isRecognitionSupported\<close>, \<open>recognition\<close> (whether
  the cell holds an object) and \<open>permissionState\<close>; \<open>capturing\<close> is the state of the
  object the cell holds. The props \<open>isListening\<close> and \<open>isMicMuted\<close> are read from the state
  of the hook's owner, and the owner's callbacks are the commands \<open>OnTranscript\<close> and
  \<open>OnFinalTranscript\<close>.
\<close>

record sr_state =
  transcript_sr :: string
  isRecognitionSupported :: bool
  recognition :: bool
  permissionState :: "permission option"
  capturing :: bool

datatype 'p sr_task = RestartAfterStop 'p

type_synonym 'p sr_result = "sr_state \<times> 'p sr_task action list"

definition sr_initial :: sr_state where
  "sr_initial =
     \<lparr>transcript_sr = [], isRecognitionSupported = True, recognition = False,
      permissionState = None, capturing = False\<rparr>"

text \<open>\<open>initializeRecognition\<close>, lines 72-138, on each kind of platform.\<close>

definition initializeRecognition :: "platform \<Rightarrow> sr_state \<Rightarrow> 'p sr_result" where
  "initializeRecognition p s =
     (case p of
        Unsupported \<Rightarrow>
          (s\<lparr>isRecognitionSupported := False\<rparr>,
           [LogError ''Speech recognition not supported in this browser'',
            Toast ''Speech Recognition Unavailable''
              ''Your browser doesn't support speech recognition. Try using Chrome, Edge, or Safari.''
              Destructive])
      | ConstructorThrows \<Rightarrow>
          (s\<lparr>isRecognitionSupported := False\<rparr>,
           [LogError ''Error initializing speech recognition:''])
      | Supported \<Rightarrow> (s\<lparr>recognition := True, capturing := False\<rparr>, []))"

text \<open>
  The loop of \<open>onresult\<close>, lines 96-99, over the results from \<open>event.resultIndex\<close> on, each
  with the transcript of its first alternative and its \<open>isFinal\<close> mark.
\<close>

fun result_loop :: "(string \<times> bool) list \<Rightarrow> string \<times> bool \<Rightarrow> string \<times> bool" where
  "result_loop [] acc = acc"
| "result_loop ((t, fin) # rs) (currentTranscript', isFinal) =
     result_loop rs (currentTranscript' @ t, fin)"

definition onresult :: "nat \<Rightarrow> (string \<times> bool) list \<Rightarrow> sr_state \<Rightarrow> 'p sr_result" where
  "onresult resultIndex results s =
     (let (currentTranscript', isFinal) = result_loop (drop resultIndex results) ([], False)
      in if isFinal then
           (s\<lparr>transcript_sr := []\<rparr>,
            [OnTranscript currentTranscript', OnFinalTranscript currentTranscript'])
         else (s\<lparr>transcript_sr := currentTranscript'\<rparr>, [OnTranscript currentTranscript']))"

definition onerror :: "string \<Rightarrow> sr_state \<Rightarrow> 'p sr_result" where
  "onerror err s =
     (if err = ''not-allowed'' then
        (s\<lparr>permissionState := Some Denied\<rparr>,
         [LogError ''Speech recognition error'',
          LogError ''Microphone access denied'',
          Toast ''Microphone Access Denied''
            ''Please enable microphone access in your browser settings.'' Destructive])
      else if err = ''audio-capture'' then
        (s, [LogError ''Speech recognition error'',
             LogError ''No microphone found'',
             Toast ''No Microphone Found''
               ''Please connect a microphone to use voice features.'' Destructive])
      else (s, [LogError ''Speech recognition error'']))"

text \<open>
  The effect of lines 171-214 that starts and stops recognition, for an owner in state \<open>p\<close>;
  its cleanup, which the effect returns only when there is a recognition object; and the
  callback of its 100 ms timer, whose \<open>start()\<close> is outside any \<open>try\<close>, so that an exception
  there leaves the callback.
\<close>

definition listening_effect :: "'a conversation_scheme \<Rightarrow> sr_state \<Rightarrow> 'a conversation_scheme sr_result"
  where
  "listening_effect p s =
     (if \<not> recognition s then (s, [])
      else
        (let shouldBeListening =
               (isListening p \<and> \<not> isMicMuted p \<and> permissionState s \<noteq> Some Denied)
         in if shouldBeListening then
              (case engine_start (capturing s) of
                 Inr cap \<Rightarrow> (s\<lparr>capturing := cap\<rparr>, [])
               | Inl e \<Rightarrow>
                   (case engine_stop (capturing s) of
                      Inr cap \<Rightarrow> (s\<lparr>capturing := cap\<rparr>, [SetTimeout 100 (RestartAfterStop p)])
                    | Inl e' \<Rightarrow> (s, [LogError ''Error restarting speech recognition:''])))
            else
              (case engine_stop (capturing s) of
                 Inr cap \<Rightarrow> (s\<lparr>capturing := cap, transcript_sr := []\<rparr>, [OnTranscript []])
               | Inl e \<Rightarrow> (s, [LogError ''Error stopping speech recognition:'']))))"

definition listening_cleanup :: "sr_state \<Rightarrow> sr_state" where
  "listening_cleanup s =
     (if \<not> recognition s then s
      else (case engine_stop (capturing s) of Inr cap \<Rightarrow> s\<lparr>capturing := cap\<rparr> | Inl e \<Rightarrow> s))"

definition restart_after_stop ::
  "'a conversation_scheme \<Rightarrow> sr_state \<Rightarrow> engine_error + 'a conversation_scheme sr_result" where
  "restart_after_stop p s =
     (if isListening p \<and> \<not> isMicMuted p then
        (case engine_start (capturing s) of
           Inr cap \<Rightarrow> Inr (s\<lparr>capturing := cap\<rparr>, [])
         | Inl e \<Rightarrow> Inl e)
      else Inr (s, []))"

text \<open>
  The owner of the hook is \<open>useConversationState\<close>: it receives the hook's callbacks in
  the order they were made.
\<close>

fun deliver :: "'p action \<Rightarrow> fresh \<Rightarrow> hs_state \<Rightarrow> hs_state \<Rightarrow> hs_state" where
  "deliver (OnTranscript t) f c s = fst (onTranscript t s)"
| "deliver (OnFinalTranscript t) f c s = fst (onFinalTranscript t f c s)"
| "deliver other f c s = s"

fun deliver_all :: "'p action list \<Rightarrow> fresh \<Rightarrow> hs_state \<Rightarrow> hs_state \<Rightarrow> hs_state" where
  "deliver_all [] f c s = s"
| "deliver_all (a # as) f c s = deliver_all as f c (deliver a f c s)"

section \<open>ConversationHandler\<close>

text \<open>
  The three refs of the component; its props \<open>webhookUrl\<close> and \<open>agentName\<close> are optional
  strings, \<open>None\<close> for \<open>undefined\<close>.
\<close>

record ch_state =
  previousWebhookUrlRef :: "string option"
  previousAgentNameRef :: "string option"
  restartingRef :: bool

datatype ch_task = RestartConversationTimer

type_synonym ch_result = "ch_state \<times> ch_task action list"

text \<open>
  The effect of lines 277-307, run after a render with the props \<open>webhookUrl\<close> and
  \<open>agentName\<close>, and the callback of its 500 ms timer. The effect returns no cleanup, so the
  timer is never cleared.
\<close>

definition config_effect :: "string option \<Rightarrow> string option \<Rightarrow> ch_state \<Rightarrow> ch_result" where
  "config_effect webhookUrl agentName s =
     (if previousWebhookUrlRef s \<noteq> webhookUrl \<or> previousAgentNameRef s \<noteq> agentName then
        (let (s1, as) =
               (if previousWebhookUrlRef s \<noteq> None then
                  (if \<not> restartingRef s then
                     (s\<lparr>restartingRef := True\<rparr>,
                      [CleanupResources, SetTimeout 500 RestartConversationTimer])
                   else (s, []))
                else (s, []))
         in (s1\<lparr>previousWebhookUrlRef := webhookUrl, previousAgentNameRef := agentName\<rparr>, as))
      else (s, []))"

definition restart_conversation_timer :: "ch_state \<Rightarrow> ch_result" where
  "restart_conversation_timer s = (s\<lparr>restartingRef := False\<rparr>, [RestartConversation])"

text \<open>
  The component over time: its refs, the timers that are set, and the commands issued so
  far. A step is a render with new props, or the oldest timer firing.
\<close>

record ch_config =
  refs :: ch_state
  ch_pending :: "(nat \<times> ch_task) list"
  issued :: "ch_task action list"

datatype ch_event = Render "string option" "string option" | TimerFires

fun ch_step :: "ch_event \<Rightarrow> ch_config \<Rightarrow> ch_config" where
  "ch_step (Render webhookUrl agentName) cfg =
     (let (s, as) = config_effect webhookUrl agentName (refs cfg)
      in cfg\<lparr>refs := s, ch_pending := ch_pending cfg @ timers_of as, issued := issued cfg @ as\<rparr>)"
| "ch_step TimerFires cfg =
     (case ch_pending cfg of
        [] \<Rightarrow> cfg
      | (d, RestartConversationTimer) # rest \<Rightarrow>
          (let (s, as) = restart_conversation_timer (refs cfg)
           in cfg\<lparr>refs := s, ch_pending := rest @ timers_of as, issued := issued cfg @ as\<rparr>))"

fun ch_run :: "ch_event list \<Rightarrow> ch_config \<Rightarrow> ch_config" where
  "ch_run [] cfg = cfg"
| "ch_run (e # es) cfg = ch_run es (ch_step e cfg)"

fun is_render :: "ch_event \<Rightarrow> bool" where
  "is_render (Render w a) = True"
| "is_render TimerFires = False"

definition restarts :: "ch_task action list \<Rightarrow> nat" where
  "restarts as = length (filter (\<lambda>a. a = RestartConversation) as)"

section \<open>Initial states\<close>

text \<open>The initial values of the \<open>useState\<close> calls of the hook.\<close>

definition hs_initial :: hs_state where
  "hs_initial =
     \<lparr>messages = [], isListening = False, isMicMuted = False, isMuted = False, volume = 4 / 5,
      isGenerating = False, isPlaying = False, error = None,
      isLoading = False, shouldAutoListen = False, currentTranscript = [],
      microphonePermission = None\<rparr>"

section \<open>Properties\<close>

subsection \<open>Input that trims to nothing\<close>

lemma processUserInput_blank: "trim txt = [] \<Longrightarrow> processUserInput txt f c s = (s, [])"
  by (simp add: processUserInput_def truthy_def)

lemma sendMessage_blank: "trim txt = [] \<Longrightarrow> sendMessage txt f c s = (s, [])"
  by (simp add: sendMessage_def truthy_def)

text \<open>
  C9. When the trimmed input is the empty string, \<open>processUserInput\<close> and \<open>sendMessage\<close>
  return at their first line: the state they return is the state they were called in (the
  message log, \<open>isListening\<close> and every other cell), and they issue no command at all, so no
  reply is fetched, no timer is set, no speech is requested and the recognition object is
  not touched. This holds for every closure \<open>c\<close> and \<open>c'\<close> they may have been created in.
\<close>

theorem empty_input_noop:
  assumes "trim txt = []"
  shows "processUserInput txt f c s = (s, []) \<and> sendMessage txt f' c' s' = (s', [])"
  using assms by (simp add: processUserInput_blank sendMessage_blank)

theorem empty_input_noop_witness:
  "trim [CHR 0x20, CHR 0x09, CHR 0x0A] = []
   \<and> processUserInput [CHR 0x20, CHR 0x09, CHR 0x0A] (''m1'', 7) ci_initial ci_initial
       = (ci_initial, [])
   \<and> sendMessage [CHR 0x20, CHR 0x09, CHR 0x0A] (''m1'', 7) hs_initial hs_initial
       = (hs_initial, [])"
proof -
  have blank: "trim [CHR 0x20, CHR 0x09, CHR 0x0A] = []"
    by (simp add: trim_def is_whitespace_def)
  from empty_input_noop [OF blank] blank show ?thesis by simp
qed

subsection \<open>Synthesis errors that mention the quota\<close>

lemma str_includes_nonempty: "str_includes e (x # xs) \<Longrightarrow> e \<noteq> []"
  by (cases e) auto

text \<open>
  C3, as the specification states it: two quota failures in a row give exactly one
  notification and two inline messages. It fails on the notification: the effect raises a
  toast only for an error that does not mention the quota, so two quota failures give
  none. The two inline messages are there.
\<close>

theorem quota_errors_raise_no_toast:
  "(let (s1, a1) = tts_error_effect (''m1'', 1) (ci_initial\<lparr>error := Some ''quota exceeded''\<rparr>);
        (s2, a2) = tts_error_effect (''m2'', 2) (s1\<lparr>error := Some ''quota exceeded''\<rparr>)
    in length (filter is_toast (a1 @ a2)) \<noteq> 1 \<and> length (messages s2) = 2)"
  by (simp add: tts_error_effect_def truthy_def ci_initial_def)

text \<open>
  C3, amended: when the error effect runs for a quota error and then again for a quota
  error, no notification is raised by either run, and each run appends one inline
  assistant message that says the quota has been exceeded.
\<close>

theorem quota_errors_suppressed:
  assumes "str_includes e1 ''quota''" and "str_includes e2 ''quota''"
  shows "(let (s1, a1) = tts_error_effect f1 (s\<lparr>error := Some e1\<rparr>);
              (s2, a2) = tts_error_effect f2 (s1\<lparr>error := Some e2\<rparr>)
          in filter is_toast (a1 @ a2) = []
             \<and> messages s2 = messages s @
                  [mk_message f1
                     ''I'm having trouble with my voice output. The API quota has been exceeded.''
                     Assistant,
                   mk_message f2
                     ''I'm having trouble with my voice output. The API quota has been exceeded.''
                     Assistant])"
  using assms str_includes_nonempty [of e1] str_includes_nonempty [of e2]
  by (simp add: tts_error_effect_def truthy_def)

theorem quota_errors_suppressed_witness:
  "str_includes ''quota exceeded'' ''quota'' \<and> str_includes ''API quota reached'' ''quota''
   \<and> (let (s1, a1) = tts_error_effect (''m1'', 1) (ci_initial\<lparr>error := Some ''quota exceeded''\<rparr>);
           (s2, a2) = tts_error_effect (''m2'', 2) (s1\<lparr>error := Some ''API quota reached''\<rparr>)
       in filter is_toast (a1 @ a2) = []
          \<and> messages s2 = messages ci_initial @
               [mk_message (''m1'', 1)
                  ''I'm having trouble with my voice output. The API quota has been exceeded.''
                  Assistant,
                mk_message (''m2'', 2)
                  ''I'm having trouble with my voice output. The API quota has been exceeded.''
                  Assistant])"
proof -
  have q1: "str_includes ''quota exceeded'' ''quota''" by simp
  have q2: "str_includes ''API quota reached'' ''quota''" by simp
  from quota_errors_suppressed [OF q1 q2, of "(''m1'', 1)" ci_initial "(''m2'', 2)"] q1 q2
  show ?thesis by blast
qed

subsection \<open>A reply that fails\<close>

text \<open>
  C4, as the specification states it: a rejected reply appends an error message to the log
  and returns the coordinator to listening. It fails on the log: the \<open>catch\<close> block raises a
  toast and appends nothing. Here the request fails after \<open>hello\<close> was sent; the log still
  ends with the user's message, and a toast carries the error.
\<close>

theorem failed_reply_not_logged:
  "(let s1 = fst (sendMessage ''hello'' (''m1'', 1) hs_initial hs_initial);
        (s2, as) = sendMessage_reply ''agent'' (FetchThrows ''Failed to fetch'') (''m2'', 2)
                     hs_initial s1
    in messages s2 = messages s1
       \<and> messages s2 = [createUserMessage (''m1'', 1) ''hello'']
       \<and> as = [Toast ''Error'' ''Failed to fetch'' Destructive,
                SetTimeout 1000 (ListenTimer hs_initial)])"
  by (simp add: sendMessage_def sendMessage_reply_def sendMessage_catch_def truthy_def
      trim_def is_whitespace_def hs_initial_def Let_def)

text \<open>
  C4, amended: when the reply fails (the request throws, or the response is not \<open>ok\<close>), and
  when the speech for a reply fails, the log is left as it is; a destructive toast titled
  \<open>Error\<close> is raised, \<open>isLoading\<close> is cleared, and a 1000 ms timer is set. When that timer
  fires it sets \<open>isListening\<close> if, in the render \<open>sendMessage\<close> closed over, the microphone
  was not muted and its permission was not denied, and changes nothing otherwise.
\<close>

theorem failed_reply_toast_and_timer:
  "sendMessage_reply agentId (FetchThrows msg) f c s
     = (s\<lparr>isLoading := False\<rparr>,
        [Toast ''Error'' (if msg = [] then ''Failed to send message'' else msg) Destructive,
         SetTimeout 1000 (ListenTimer c)])
   \<and> sendMessage_reply agentId (HttpError status ds dm) f c s
     = (s\<lparr>isLoading := False\<rparr>,
        [Toast ''Error''
           (if http_error_message agentId status ds dm = [] then ''Failed to send message''
            else http_error_message agentId status ds dm) Destructive,
         SetTimeout 1000 (ListenTimer c)])
   \<and> sendMessage_speech (SpeechRejected msg) c s
     = (s\<lparr>isLoading := False\<rparr>,
        [Toast ''Error'' (if msg = [] then ''Failed to send message'' else msg) Destructive,
         SetTimeout 1000 (ListenTimer c)])
   \<and> listen_timer c s'
     = (if isMicMuted c \<or> microphonePermission c = Some Denied then (s', [])
        else (s'\<lparr>isListening := True\<rparr>, []))"
  by (simp add: sendMessage_reply_def sendMessage_speech_def sendMessage_catch_def
      listen_timer_def truthy_def)

subsection \<open>A reply that resolves while the output is muted\<close>

text \<open>
  C5. A reply that resolves while the output is muted is to be appended without any speech
  being requested, and the microphone armed again after a delay. \<open>sendMessage\<close> tests the
  \<open>isMuted\<close> and \<open>volume\<close> of the render it closed over, not those of the time the reply
  resolves. Here \<open>hello\<close> is sent with the output on, the user mutes the output while the
  reply is awaited, and the reply \<open>hi there\<close> resolves: the output is muted, the reply is
  appended, and speech for it is requested all the same; no timer is set to listen again.
  The timer callback of \<open>processUserInput\<close> tests its closure in the same way.
\<close>

theorem muted_after_send_still_speaks:
  "(let sent = fst (sendMessage ''hello'' (''m1'', 1) hs_initial hs_initial);
        muted = fst (toggleMute sent sent);
        (s, as) = sendMessage_reply ''agent'' (HttpOk ''hi there'') (''m2'', 2) hs_initial muted
    in isMuted muted \<and> isMuted s
       \<and> messages s = [createUserMessage (''m1'', 1) ''hello'',
                        createAssistantMessage (''m2'', 2) ''hi there'']
       \<and> as = [GenerateSpeech ''hi there'', Await (SpeechSettled hs_initial)]
       \<and> filter is_generate as \<noteq> [])
   \<and> (let c = ci_initial;
            muted = fst (handleMuteToggle c (fst (processUserInput ''hello'' (''m1'', 1) c c)));
            (s, as) = processUserInput_reply ''hello'' (''m2'', 2) c muted
        in isMuted muted \<and> as = [GenerateSpeech (assistantResponse ''hello'')])"
  by (simp add: sendMessage_def toggleMute_def sendMessage_reply_def processUserInput_def
      handleMuteToggle_def processUserInput_reply_def hs_initial_def ci_initial_def
      trim_def is_whitespace_def truthy_def truthy_opt_def createUserMessage_def
      createAssistantMessage_def Let_def)

subsection \<open>A configuration change while a restart is in progress\<close>

lemma ch_run_append: "ch_run (xs @ ys) cfg = ch_run ys (ch_run xs cfg)"
  by (induction xs arbitrary: cfg) simp_all

lemma render_while_restarting:
  assumes "restartingRef (refs cfg)"
  shows "issued (ch_step (Render w a) cfg) = issued cfg
         \<and> ch_pending (ch_step (Render w a) cfg) = ch_pending cfg
         \<and> restartingRef (refs (ch_step (Render w a) cfg))"
  using assms by (simp add: config_effect_def Let_def)

lemma renders_while_restarting:
  "restartingRef (refs cfg) \<Longrightarrow> list_all is_render rs \<Longrightarrow>
     issued (ch_run rs cfg) = issued cfg \<and> ch_pending (ch_run rs cfg) = ch_pending cfg
     \<and> restartingRef (refs (ch_run rs cfg))"
proof (induction rs arbitrary: cfg)
  case Nil
  then show ?case by simp
next
  case (Cons e rs)
  from Cons.prems(2) obtain w a where e: "e = Render w a" and rest: "list_all is_render rs"
    by (cases e) auto
  from render_while_restarting [OF Cons.prems(1), of w a]
  have step: "issued (ch_step e cfg) = issued cfg" "ch_pending (ch_step e cfg) = ch_pending cfg"
    "restartingRef (refs (ch_step e cfg))"
    unfolding e by blast+
  from Cons.IH [OF step(3) rest] step show ?case by simp
qed

text \<open>
  C7. Take the component with no restart in progress and no timer set, and a render whose
  props differ from the remembered ones (the remembered webhook URL being defined, so that
  this is not the initial load): the restart condition fires, the resources are cleaned up
  and the 500 ms timer is set. Let any number of renders follow before the timer fires,
  with any props at all, so that the restart condition may fire again any number of times:
  they issue nothing, neither a cleanup nor a second timer. When the timer fires,
  \<open>restartConversation\<close> runs and the guard is released. Over the whole episode exactly one
  restart has run, and no timer is left.
\<close>

theorem restart_guard:
  assumes idle: "\<not> restartingRef (refs cfg)" "ch_pending cfg = []"
    and known: "previousWebhookUrlRef (refs cfg) \<noteq> None"
    and changed: "previousWebhookUrlRef (refs cfg) \<noteq> w \<or> previousAgentNameRef (refs cfg) \<noteq> a"
    and renders: "list_all is_render rs"
  shows "issued (ch_run (Render w a # rs) cfg)
           = issued cfg @ [CleanupResources, SetTimeout 500 RestartConversationTimer]
         \<and> ch_pending (ch_run (Render w a # rs) cfg) = [(500, RestartConversationTimer)]
         \<and> issued (ch_run (Render w a # rs @ [TimerFires]) cfg)
           = issued cfg @ [CleanupResources, SetTimeout 500 RestartConversationTimer,
                           RestartConversation]
         \<and> restarts (issued (ch_run (Render w a # rs @ [TimerFires]) cfg))
           = restarts (issued cfg) + 1
         \<and> ch_pending (ch_run (Render w a # rs @ [TimerFires]) cfg) = []
         \<and> \<not> restartingRef (refs (ch_run (Render w a # rs @ [TimerFires]) cfg))"
proof -
  let ?c1 = "ch_step (Render w a) cfg"
  have first: "issued ?c1 = issued cfg @ [CleanupResources, SetTimeout 500 RestartConversationTimer]"
    "ch_pending ?c1 = [(500, RestartConversationTimer)]" "restartingRef (refs ?c1)"
    using idle known changed by (auto simp add: config_effect_def Let_def)
  let ?c2 = "ch_run rs ?c1"
  from renders_while_restarting [OF first(3) renders] first
  have mid: "issued ?c2 = issued cfg @ [CleanupResources, SetTimeout 500 RestartConversationTimer]"
    "ch_pending ?c2 = [(500, RestartConversationTimer)]"
    by simp_all
  have last: "ch_run (Render w a # rs @ [TimerFires]) cfg = ch_step TimerFires ?c2"
    by (simp add: ch_run_append)
  show ?thesis
    unfolding last using mid by (simp add: restart_conversation_timer_def restarts_def)
qed

theorem restart_guard_witness:
  "(let cfg = \<lparr>refs = \<lparr>previousWebhookUrlRef = Some ''https://a.example/hook'',
                        previousAgentNameRef = Some ''Ada'', restartingRef = False\<rparr>,
               ch_pending = [], issued = []\<rparr>;
        es = [Render (Some ''https://b.example/hook'') (Some ''Ada''),
              Render (Some ''https://c.example/hook'') (Some ''Bob''),
              Render (Some ''https://c.example/hook'') (Some ''Cy''),
              TimerFires]
    in issued (ch_run es cfg)
         = [CleanupResources, SetTimeout 500 RestartConversationTimer, RestartConversation]
       \<and> restarts (issued (ch_run es cfg)) = 1
       \<and> ch_pending (ch_run es cfg) = []
       \<and> \<not> restartingRef (refs (ch_run es cfg)))"
proof -
  let ?cfg = "\<lparr>refs = \<lparr>previousWebhookUrlRef = Some ''https://a.example/hook'',
                        previousAgentNameRef = Some ''Ada'', restartingRef = False\<rparr>,
               ch_pending = [], issued = []\<rparr>"
  have idle: "\<not> restartingRef (refs ?cfg)" "ch_pending ?cfg = []"
    by simp_all
  have known: "previousWebhookUrlRef (refs ?cfg) \<noteq> None"
    by simp
  have changed: "previousWebhookUrlRef (refs ?cfg) \<noteq> Some ''https://b.example/hook''
                 \<or> previousAgentNameRef (refs ?cfg) \<noteq> Some ''Ada''"
    by simp
  have renders: "list_all is_render
                   [Render (Some ''https://c.example/hook'') (Some ''Bob''),
                    Render (Some ''https://c.example/hook'') (Some ''Cy'')]"
    by simp
  from restart_guard [OF idle known changed renders]
  show ?thesis by (simp add: restarts_def del: ch_run.simps)
qed

subsection \<open>Stopping recognition twice\<close>

lemma stop_branch:
  assumes "\<not> (isListening p \<and> \<not> isMicMuted p \<and> permissionState s \<noteq> Some Denied)"
  shows "listening_effect p s
           = (if recognition s then (s\<lparr>capturing := False, transcript_sr := []\<rparr>, [OnTranscript []])
              else (s, []))"
  using assms by (auto simp add: listening_effect_def engine_stop_def Let_def)

text \<open>
  C8, as the specification states it: stopping when capture is not active, or stopping
  twice in a row, produces no further event. It fails on the events: every run of the
  stopping branch calls \<open>onTranscript('')\<close> after \<open>recognition.stop()\<close>. Here the object is
  not capturing and the owner is not listening; the effect runs, then its cleanup and the
  effect again: the second run leaves the state as it was and still calls the owner back.
\<close>

theorem second_stop_calls_back:
  "(let s = sr_initial\<lparr>recognition := True\<rparr>;
        (s1, a1) = listening_effect hs_initial s;
        (s2, a2) = listening_effect hs_initial (listening_cleanup s1)
    in a2 = [OnTranscript []] \<and> a2 \<noteq> [] \<and> s2 = s1)"
  by (simp add: listening_effect_def listening_cleanup_def engine_stop_def sr_initial_def
      hs_initial_def Let_def)

text \<open>
  C8, amended: whenever the owner's state asks for no capture (not listening, or the
  microphone muted, or the permission denied), the effect stops the object, empties the
  transcript and calls \<open>onTranscript('')\<close>, and no exception is caught or thrown; when the
  effect is cleaned up and run again for such a state, the hook's state is what the first
  run left, and the only command is again the call \<open>onTranscript('')\<close>. If the object was
  not capturing and the transcript was empty, the first run changes nothing either.
  Without a recognition object the effect does nothing at all.
\<close>

theorem stop_idempotent:
  assumes "\<not> (isListening p \<and> \<not> isMicMuted p \<and> permissionState s \<noteq> Some Denied)"
    and "\<not> (isListening p' \<and> \<not> isMicMuted p' \<and> permissionState s \<noteq> Some Denied)"
  shows "listening_effect p s
           = (if recognition s then (s\<lparr>capturing := False, transcript_sr := []\<rparr>, [OnTranscript []])
              else (s, []))
         \<and> listening_effect p' (listening_cleanup (fst (listening_effect p s)))
           = (fst (listening_effect p s), if recognition s then [OnTranscript []] else [])
         \<and> (\<not> capturing s \<and> transcript_sr s = [] \<longrightarrow> fst (listening_effect p s) = s)"
proof -
  let ?s1 = "fst (listening_effect p s)"
  have first: "listening_effect p s
           = (if recognition s then (s\<lparr>capturing := False, transcript_sr := []\<rparr>, [OnTranscript []])
              else (s, []))"
    by (rule stop_branch [OF assms(1)])
  have perm: "permissionState (listening_cleanup ?s1) = permissionState s"
    by (simp add: first listening_cleanup_def engine_stop_def)
  have "\<not> (isListening p' \<and> \<not> isMicMuted p'
            \<and> permissionState (listening_cleanup ?s1) \<noteq> Some Denied)"
    using assms(2) perm by simp
  from stop_branch [OF this]
  have second: "listening_effect p' (listening_cleanup ?s1)
           = (?s1, if recognition s then [OnTranscript []] else [])"
    by (simp add: first listening_cleanup_def engine_stop_def)
  have third: "\<not> capturing s \<and> transcript_sr s = [] \<longrightarrow> ?s1 = s"
    by (simp add: first)
  from first second third show ?thesis by blast
qed

theorem stop_idempotent_witness:
  "(let p = hs_initial\<lparr>isListening := True, isMicMuted := True\<rparr>;
        s = sr_initial\<lparr>recognition := True, capturing := True, transcript_sr := ''hel''\<rparr>;
        s1 = s\<lparr>capturing := False, transcript_sr := []\<rparr>
    in \<not> (isListening p \<and> \<not> isMicMuted p \<and> permissionState s \<noteq> Some Denied)
       \<and> \<not> (isListening hs_initial \<and> \<not> isMicMuted hs_initial \<and> permissionState s \<noteq> Some Denied)
       \<and> listening_effect p s = (s1, [OnTranscript []])
       \<and> listening_effect hs_initial (listening_cleanup s1) = (s1, [OnTranscript []]))"
proof -
  let ?p = "hs_initial\<lparr>isListening := True, isMicMuted := True\<rparr>"
  let ?s = "sr_initial\<lparr>recognition := True, capturing := True, transcript_sr := ''hel''\<rparr>"
  let ?s1 = "?s\<lparr>capturing := False, transcript_sr := []\<rparr>"
  have h1: "\<not> (isListening ?p \<and> \<not> isMicMuted ?p \<and> permissionState ?s \<noteq> Some Denied)"
    by simp
  have h2: "\<not> (isListening hs_initial \<and> \<not> isMicMuted hs_initial
                \<and> permissionState ?s \<noteq> Some Denied)"
    by (simp add: hs_initial_def)
  have rec: "recognition ?s"
    by simp
  note both = stop_idempotent [OF h1 h2]
  from both have c1: "listening_effect ?p ?s
      = (if recognition ?s then (?s1, [OnTranscript []]) else (?s, []))"
    by (rule conjunct1)
  from both have c2: "listening_effect hs_initial (listening_cleanup (fst (listening_effect ?p ?s)))
      = (fst (listening_effect ?p ?s), if recognition ?s then [OnTranscript []] else [])"
    by (rule conjunct1 [OF conjunct2])
  from c1 rec have first: "listening_effect ?p ?s = (?s1, [OnTranscript []])"
    by (simp only: if_True)
  from c2 rec have second: "listening_effect hs_initial (listening_cleanup ?s1) = (?s1, [OnTranscript []])"
    by (simp only: first fst_conv if_True)
  from h1 h2 first second show ?thesis
    unfolding Let_def by blast
qed

subsection \<open>The interim transcript\<close>

lemma result_loop_eq:
  "result_loop rs (acc, b) = (acc @ concat (map fst rs), if rs = [] then b else snd (last rs))"
  by (induction rs arbitrary: acc b) auto

lemma onresult_eq:
  "onresult i rs s =
     (if snd (result_loop (drop i rs) ([], False)) then
        (s\<lparr>transcript_sr := []\<rparr>,
         [OnTranscript (concat (map fst (drop i rs))),
          OnFinalTranscript (concat (map fst (drop i rs)))])
      else (s\<lparr>transcript_sr := concat (map fst (drop i rs))\<rparr>,
            [OnTranscript (concat (map fst (drop i rs)))]))"
  by (simp add: onresult_def result_loop_eq)

text \<open>
  C10. For a result event of the hook, with the results of the event from its
  \<open>resultIndex\<close> on:
  \<^item> when the last of them is final, the hook's transcript is empty afterwards, and so is
    the owner's \<open>currentTranscript\<close> once \<open>onFinalTranscript\<close> has run;
  \<^item> when the effect takes its stopping branch on a recognition object, the transcript is
    empty afterwards and the owner is called with the empty string;
  \<^item> the outcome of a result event does not depend on the transcript held before it: the
    new transcript is the concatenation of the event's own results, or empty after a final
    one, so nothing of an earlier utterance is kept or put in front;
  \<^item> when the last result is not final, the only callback is \<open>onTranscript\<close>, and the
    owner's message log is the same after the callbacks have been delivered.
\<close>

theorem interim_reset:
  "(snd (result_loop (drop i rs) ([], False))
      \<longrightarrow> transcript_sr (fst (onresult i rs s)) = [])
   \<and> currentTranscript (fst (onFinalTranscript txt f c h)) = []
   \<and> (recognition s \<and> \<not> (isListening p \<and> \<not> isMicMuted p \<and> permissionState s \<noteq> Some Denied)
      \<longrightarrow> transcript_sr (fst (listening_effect p s)) = []
          \<and> snd (listening_effect p s) = [OnTranscript []])
   \<and> onresult i rs (s\<lparr>transcript_sr := t\<rparr>) = onresult i rs s
   \<and> transcript_sr (fst (onresult i rs s))
       = (if snd (result_loop (drop i rs) ([], False)) then []
          else concat (map fst (drop i rs)))
   \<and> (\<not> snd (result_loop (drop i rs) ([], False))
      \<longrightarrow> snd (onresult i rs s) = [OnTranscript (concat (map fst (drop i rs)))]
          \<and> messages (deliver_all (snd (onresult i rs s)) f c h) = messages h)"
proof -
  have stop: "recognition s \<and> \<not> (isListening p \<and> \<not> isMicMuted p \<and> permissionState s \<noteq> Some Denied)
      \<longrightarrow> transcript_sr (fst (listening_effect p s)) = []
          \<and> snd (listening_effect p s) = [OnTranscript []]"
    by (auto simp add: listening_effect_def engine_stop_def Let_def)
  have indep: "onresult i rs (s\<lparr>transcript_sr := t\<rparr>) = onresult i rs s"
    by (simp add: onresult_eq)
  have owner: "currentTranscript (fst (onFinalTranscript txt f c h)) = []"
    by (simp add: onFinalTranscript_def split: prod.splits)
  show ?thesis
    using stop indep owner by (simp add: onresult_eq onTranscript_def)
qed

theorem interim_reset_witness:
  "(let s = sr_initial\<lparr>recognition := True, capturing := True, transcript_sr := ''hel''\<rparr>;
        final = [(''turn the '', True), (''lights on'', True)];
        interim = [(''hello'', True), (''turn the'', False)]
    in snd (result_loop (drop 0 final) ([], False))
       \<and> transcript_sr (fst (onresult 0 final s :: hs_state sr_result)) = []
       \<and> recognition s
       \<and> \<not> (isListening hs_initial \<and> \<not> isMicMuted hs_initial \<and> permissionState s \<noteq> Some Denied)
       \<and> transcript_sr (fst (listening_effect hs_initial s)) = []
       \<and> \<not> snd (result_loop (drop 1 interim) ([], False))
       \<and> snd (onresult 1 interim s :: hs_state sr_result) = [OnTranscript ''turn the'']
       \<and> messages (deliver_all (snd (onresult 1 interim s :: hs_state sr_result)) (''m1'', 1)
            hs_initial hs_initial) = messages hs_initial)"
proof -
  let ?s = "sr_initial\<lparr>recognition := True, capturing := True, transcript_sr := ''hel''\<rparr>"
  let ?final = "[(''turn the '', True), (''lights on'', True)]"
  let ?interim = "[(''hello'', True), (''turn the'', False)]"
  have h1: "snd (result_loop (drop 0 ?final) ([], False))"
    by simp
  have h2: "recognition ?s" "\<not> (isListening hs_initial \<and> \<not> isMicMuted hs_initial
              \<and> permissionState ?s \<noteq> Some Denied)"
    by (simp_all add: hs_initial_def)
  have h3: "\<not> snd (result_loop (drop 1 ?interim) ([], False))"
    by simp
  have cat: "concat (map fst (drop 1 ?interim)) = ''turn the''"
    by simp
  note fin = interim_reset [of 0 ?final ?s "[]" "(''m1'', 1)" hs_initial hs_initial hs_initial "[]"]
  note int = interim_reset [of 1 ?interim ?s "[]" "(''m1'', 1)" hs_initial hs_initial hs_initial "[]"]
  from fin h1 have a: "transcript_sr (fst (onresult 0 ?final ?s :: hs_state sr_result)) = []"
    by blast
  from fin h2 have b: "transcript_sr (fst (listening_effect hs_initial ?s)) = []"
    by blast
  from int h3 have c: "snd (onresult 1 ?interim ?s :: hs_state sr_result)
      = [OnTranscript (concat (map fst (drop 1 ?interim)))]"
    by blast
  from int h3 have d: "messages (deliver_all (snd (onresult 1 ?interim ?s :: hs_state sr_result))
      (''m1'', 1) hs_initial hs_initial) = messages hs_initial"
    by blast
  from c have c': "snd (onresult 1 ?interim ?s :: hs_state sr_result) = [OnTranscript ''turn the'']"
    unfolding cat .
  from h1 h2 h3 a b c' d show ?thesis
    unfolding Let_def by blast
qed

subsection \<open>A reply that resumes in a changed state\<close>



subsection \<open>Capture and playback\<close>

text \<open>
  What every step keeps: a recognition object is in \<open>recognitionRef.current\<close> once one has
  been built or \<open>isListening\<close> is set; and when the effect of lines 410-425 is not due,
  \<open>isListening\<close> is not set together with \<open>isPlaying\<close> or \<open>isGenerating\<close>.
\<close>

lemmas ci_handler_defs =
  tts_error_effect_def recognition_create_def recognition_onstart_def recognition_onend_def
  recognition_onresult_def processUserInput_def processUserInput_reply_def
  recognition_onerror_def toggleListening_def stop_current_def
  toggleListening_resume_def startListening_def startListening_resume_def
  requestMicrophonePermission_def handleMicMuteToggle_def handleMuteToggle_def
  handleVolumeChange_def handleTextSubmit_def restart_timer_def cooldown_timer_def





lemma tts_frame:
  "isListening (fst (tts_error_effect f s)) = isListening s"
  "isPlaying (fst (tts_error_effect f s)) = isPlaying s"
  "isGenerating (fst (tts_error_effect f s)) = isGenerating s"
  "autoStartMic (fst (tts_error_effect f s)) = autoStartMic s"
  "isMicMuted (fst (tts_error_effect f s)) = isMicMuted s"
  "recognitionRef (fst (tts_error_effect f s)) = recognitionRef s"
  "hasAttemptedSpeechRecognition (fst (tts_error_effect f s)) = hasAttemptedSpeechRecognition s"
  by (simp_all add: tts_error_effect_def split: option.splits)

lemma init_frame:
  "isListening (fst (recognition_init c s)) = isListening s"
  "isPlaying (fst (recognition_init c s)) = isPlaying s"
  "isGenerating (fst (recognition_init c s)) = isGenerating s"
  "autoStartMic (fst (recognition_init c s)) = autoStartMic s"
  "isMicMuted (fst (recognition_init c s)) = isMicMuted s"
  "recognitionRef (fst (recognition_init c s)) = recognitionRef s"
  "hasAttemptedSpeechRecognition (fst (recognition_init c s)) = hasAttemptedSpeechRecognition s"
  by (simp_all add: recognition_init_def)

lemma audio_frame:
  "isPlaying (fst (audio_effect s)) = isPlaying s"
  "isGenerating (fst (audio_effect s)) = isGenerating s"
  "autoStartMic (fst (audio_effect s)) = autoStartMic s"
  "isMicMuted (fst (audio_effect s)) = isMicMuted s"
  "recognitionRef (fst (audio_effect s)) = recognitionRef s"
  "hasAttemptedSpeechRecognition (fst (audio_effect s)) = hasAttemptedSpeechRecognition s"
  by (simp_all add: audio_effect_def split: option.splits)

lemma flush_cur:
  "cur (ci_flush f cfg) =
     (let c = cur cfg;
          s1 = (if audio_deps c \<noteq> audio_deps (rendered cfg) then fst (audio_effect c) else c);
          s2 = (if init_deps c \<noteq> init_deps (rendered cfg) then fst (recognition_init c s1) else s1)
      in if error c \<noteq> error (rendered cfg) then fst (tts_error_effect f s2) else s2)"
  by (simp add: ci_flush_def Let_def split: prod.splits)

lemma flush_parts:
  "rendered (ci_flush f cfg) = cur cfg"
  "objects (ci_flush f cfg) = objects cfg"
  "recognitionRef (cur (ci_flush f cfg)) = recognitionRef (cur cfg)"
  "isPlaying (cur (ci_flush f cfg)) = isPlaying (cur cfg)"
  "isGenerating (cur (ci_flush f cfg)) = isGenerating (cur cfg)"
  "autoStartMic (cur (ci_flush f cfg)) = autoStartMic (cur cfg)"
  "isMicMuted (cur (ci_flush f cfg)) = isMicMuted (cur cfg)"
  "hasAttemptedSpeechRecognition (cur (ci_flush f cfg))
     = hasAttemptedSpeechRecognition (cur cfg)"
  "isListening (cur (ci_flush f cfg))
     = (if audio_deps (cur cfg) \<noteq> audio_deps (rendered cfg)
        then isListening (fst (audio_effect (cur cfg))) else isListening (cur cfg))"
proof -
  show "rendered (ci_flush f cfg) = cur cfg" "objects (ci_flush f cfg) = objects cfg"
    by (simp_all add: ci_flush_def Let_def split: prod.splits)
qed (simp_all add: flush_cur Let_def tts_frame init_frame audio_frame)









lemma run_reachable: "ci_reachable cfg \<Longrightarrow> ci_reachable (ci_run es cfg)"
  by (induction es arbitrary: cfg) (simp_all add: ci_reachable.step)

lemma ci_initial_fields:
  "messages ci_initial = []" "\<not> isListening ci_initial" "\<not> isMicMuted ci_initial"
  "\<not> isMuted ci_initial" "\<not> isGenerating ci_initial" "\<not> isPlaying ci_initial"
  "error ci_initial = None" "inputMode ci_initial = Voice" "autoStartMic ci_initial"
  "ttsError ci_initial = None" "recognitionRef ci_initial = None" "textInput ci_initial = []"
  "\<not> hasRequestedMicPermission ci_initial" "\<not> hasAttemptedSpeechRecognition ci_initial"
  by (simp_all add: ci_initial_def)

lemma mounted_eq:
  "ci_mounted f =
     \<lparr>cur = ci_initial\<lparr>isMicAvailable := Some True,
                        messages := [mk_message f ''Hello! How can I help you today?'' Assistant]\<rparr>,
      rendered = ci_initial,
      pending = [(500, AutoStartTimer ci_initial), (0, CreateRecognition ci_initial)],
      objects = [],
      commands = [SetTimeout 500 (AutoStartTimer ci_initial), CheckMicrophoneDevices,
                RequestMicrophoneAccess, Await (CreateRecognition ci_initial),
                GenerateSpeech ''Hello! How can I help you today?'']\<rparr>"
  by (simp add: ci_mounted_def audio_effect_def recognition_init_def tts_error_effect_def
      welcome_effect_def ci_initial_fields)




subsection \<open>Restarts after an unexpected end of capture\<close>

text \<open>
  What every step keeps of the timers of \<open>onend\<close>: at most one of the two is pending, and
  while one is pending the flag is set.
\<close>

lemma timers_of_append: "timers_of (xs @ ys) = timers_of xs @ timers_of ys"
  by (induction xs rule: timers_of.induct) simp_all

lemma filter_remove_nth:
  "n < length xs \<Longrightarrow>
     length (filter P (remove_nth n xs)) = length (filter P xs) - (if P (xs ! n) then 1 else 0)"
proof (induction xs arbitrary: n)
  case Nil
  then show ?case by simp
next
  case (Cons x xs)
  show ?case
  proof (cases n)
    case 0
    then show ?thesis by (simp add: remove_nth_def)
  next
    case (Suc m)
    with Cons.prems have m: "m < length xs" by simp
    have pos: "P (xs ! m) \<Longrightarrow> 0 < length (filter P xs)"
      using m by (auto simp add: filter_empty_conv dest: nth_mem)
    from Cons.IH [OF m] pos show ?thesis
      unfolding Suc by (auto simp add: remove_nth_def)
  qed
qed

lemma filter_pos: "n < length xs \<Longrightarrow> P (xs ! n) \<Longrightarrow> 0 < length (filter P xs)"
  by (auto simp add: filter_empty_conv dest: nth_mem)

lemma handle_timers:
  "filter is_cooldown_timer (timers_of (snd (ci_handle e objs s))) = []
   \<and> (filter is_restart_timer (timers_of (snd (ci_handle e objs s))) = []
        \<and> hasAttemptedSpeechRecognition (fst (ci_handle e objs s))
          = hasAttemptedSpeechRecognition s
      \<or> length (filter is_restart_timer (timers_of (snd (ci_handle e objs s)))) = 1
        \<and> \<not> hasAttemptedSpeechRecognition s
        \<and> hasAttemptedSpeechRecognition (fst (ci_handle e objs s)))"
  by (cases e)
     (auto simp add: ci_handler_defs Let_def timers_of_append split: option.splits)

lemma task_timers:
  "hasAttemptedSpeechRecognition (fst (run_task t f p k s))
     = (if t = CooldownTimer then False else hasAttemptedSpeechRecognition s)
   \<and> filter is_restart_timer (timers_of (snd (run_task t f p k s))) = []
   \<and> length (filter is_cooldown_timer (timers_of (snd (run_task t f p k s))))
     = (if is_restart_timer (d, t) \<and> 0 < starts (snd (run_task t f p k s)) then 1 else 0)"
  by (cases t; cases p)
     (auto simp add: ci_handler_defs Let_def timers_of_append starts_def split: option.splits)



lemma restart_not_auto: "is_restart_timer x \<Longrightarrow> \<not> is_auto_start x"
  by (cases x rule: is_auto_start.cases) simp_all

lemma cooldown_not_auto: "is_cooldown_timer x \<Longrightarrow> \<not> is_auto_start x"
  by (cases x rule: is_auto_start.cases) simp_all

lemma restart_not_cooldown: "is_restart_timer x \<Longrightarrow> \<not> is_cooldown_timer x"
  by (cases x rule: is_restart_timer.cases) simp_all

lemma not_auto_and_restart:
  "(\<lambda>x. \<not> is_auto_start x \<and> is_restart_timer x) = is_restart_timer"
  using restart_not_auto by auto

lemma not_auto_and_cooldown:
  "(\<lambda>x. \<not> is_auto_start x \<and> is_cooldown_timer x) = is_cooldown_timer"
  using cooldown_not_auto by auto

lemma effect_timers:
  "filter is_restart_timer (timers_of (snd (audio_effect s))) = []"
  "filter is_cooldown_timer (timers_of (snd (audio_effect s))) = []"
  "filter is_restart_timer (timers_of (snd (recognition_init c s))) = []"
  "filter is_cooldown_timer (timers_of (snd (recognition_init c s))) = []"
  "timers_of (snd (tts_error_effect f s)) = []"
  by (simp_all add: audio_effect_def recognition_init_def tts_error_effect_def
      split: option.splits)

lemma flush_pending_eq:
  "pending (ci_flush f cfg) =
     (if audio_deps (cur cfg) \<noteq> audio_deps (rendered cfg)
      then filter (\<lambda>t. \<not> is_auto_start t) (pending cfg) @ timers_of (snd (audio_effect (cur cfg)))
      else pending cfg)
     @ (if init_deps (cur cfg) \<noteq> init_deps (rendered cfg)
        then timers_of (snd (recognition_init (cur cfg) (cur cfg))) else [])"
  by (simp add: ci_flush_def Let_def case_prod_beta timers_of_append effect_timers
      recognition_init_def)

lemma flush_pending:
  "pending_restarts (ci_flush f cfg) = pending_restarts cfg
   \<and> pending_cooldowns (ci_flush f cfg) = pending_cooldowns cfg
   \<and> hasAttemptedSpeechRecognition (cur (ci_flush f cfg))
     = hasAttemptedSpeechRecognition (cur cfg)"
  by (simp add: flush_pending_eq flush_parts pending_restarts_def pending_cooldowns_def
      effect_timers not_auto_and_restart not_auto_and_cooldown)

lemma dispatch_other:
  assumes "\<And>n f p. e \<noteq> Fire n f p"
  shows "pending_cooldowns (ci_dispatch e cfg) = pending_cooldowns cfg
   \<and> (pending_restarts (ci_dispatch e cfg) = pending_restarts cfg
        \<and> hasAttemptedSpeechRecognition (cur (ci_dispatch e cfg))
          = hasAttemptedSpeechRecognition (cur cfg)
      \<or> pending_restarts (ci_dispatch e cfg) = Suc (pending_restarts cfg)
        \<and> \<not> hasAttemptedSpeechRecognition (cur cfg)
        \<and> hasAttemptedSpeechRecognition (cur (ci_dispatch e cfg)))"
proof -
  obtain s as where h: "ci_handle e (objects cfg) (cur cfg) = (s, as)"
    by (cases "ci_handle e (objects cfg) (cur cfg)")
  have d: "ci_dispatch e cfg
      = cfg\<lparr>cur := s, pending := pending cfg @ timers_of as, commands := commands cfg @ as\<rparr>"
    using assms h by (cases e) (auto simp add: ci_dispatch_def)
  from handle_timers [of e "objects cfg" "cur cfg"] h show ?thesis
    unfolding d by (auto simp add: pending_restarts_def pending_cooldowns_def)
qed

lemma dispatch_fire:
  assumes "n < length (pending cfg)"
  shows "hasAttemptedSpeechRecognition (cur (ci_dispatch (Fire n f p) cfg))
           = (if is_cooldown_timer (pending cfg ! n) then False
              else hasAttemptedSpeechRecognition (cur cfg))
   \<and> pending_restarts (ci_dispatch (Fire n f p) cfg)
       = pending_restarts cfg - (if is_restart_timer (pending cfg ! n) then 1 else 0)
   \<and> pending_cooldowns (ci_dispatch (Fire n f p) cfg)
       = pending_cooldowns cfg - (if is_cooldown_timer (pending cfg ! n) then 1 else 0)
         + (if is_restart_timer (pending cfg ! n)
               \<and> 0 < starts (snd (run_task (snd (pending cfg ! n)) f p (length (objects cfg))
                                    (cur cfg)))
            then 1 else 0)"
proof -
  obtain d t where pn: "pending cfg ! n = (d, t)"
    by (cases "pending cfg ! n")
  obtain s as where r: "run_task t f p (length (objects cfg)) (cur cfg) = (s, as)"
    by (cases "run_task t f p (length (objects cfg)) (cur cfg)")
  have disp: "ci_dispatch (Fire n f p) cfg
      = cfg\<lparr>cur := s, pending := remove_nth n (pending cfg) @ timers_of as,
             objects := objects cfg @ built t p, commands := commands cfg @ as\<rparr>"
    using assms pn r by (simp add: ci_dispatch_def)
  have cool: "is_cooldown_timer (d, t) = (t = CooldownTimer)"
    by (cases t) simp_all
  from task_timers [of t f p "length (objects cfg)" "cur cfg" d] r
  show ?thesis
    unfolding disp
    by (simp add: pending_restarts_def pending_cooldowns_def filter_remove_nth [OF assms]
        pn cool)
qed

lemma step_cases:
  "(attempts_restart e cfg \<and> \<not> cooldown_expires e cfg
      \<and> 1 \<le> pending_restarts cfg
      \<and> pending_restarts (ci_step e cfg) = pending_restarts cfg - 1
      \<and> pending_cooldowns (ci_step e cfg) = Suc (pending_cooldowns cfg)
      \<and> hasAttemptedSpeechRecognition (cur (ci_step e cfg))
        = hasAttemptedSpeechRecognition (cur cfg))
   \<or> (cooldown_expires e cfg \<and> \<not> attempts_restart e cfg
      \<and> 1 \<le> pending_cooldowns cfg
      \<and> pending_cooldowns (ci_step e cfg) = pending_cooldowns cfg - 1
      \<and> pending_restarts (ci_step e cfg) = pending_restarts cfg
      \<and> \<not> hasAttemptedSpeechRecognition (cur (ci_step e cfg)))
   \<or> (\<not> attempts_restart e cfg \<and> \<not> cooldown_expires e cfg
      \<and> pending_cooldowns (ci_step e cfg) = pending_cooldowns cfg
      \<and> (pending_restarts (ci_step e cfg) \<le> pending_restarts cfg
           \<and> hasAttemptedSpeechRecognition (cur (ci_step e cfg))
             = hasAttemptedSpeechRecognition (cur cfg)
         \<or> pending_restarts (ci_step e cfg) = Suc (pending_restarts cfg)
           \<and> \<not> hasAttemptedSpeechRecognition (cur cfg)
           \<and> hasAttemptedSpeechRecognition (cur (ci_step e cfg))))"
proof (cases "\<exists>n f p. e = Fire n f p \<and> n < length (pending cfg) \<and> settled cfg")
  case True
  then obtain n f p where e: "e = Fire n f p" and n: "n < length (pending cfg)"
    and st: "settled cfg"
    by blast
  have step: "ci_step e cfg = ci_dispatch (Fire n f p) cfg"
    using st by (simp add: e ci_step_def)
  note d = dispatch_fire [OF n, of f p]
  show ?thesis
  proof (cases "is_restart_timer (pending cfg ! n)")
    case True
    then have nc: "\<not> is_cooldown_timer (pending cfg ! n)"
      by (rule restart_not_cooldown)
    from filter_pos [of n "pending cfg" is_restart_timer, OF n True]
    have pos: "1 \<le> pending_restarts cfg"
      unfolding pending_restarts_def by linarith
    from d True nc pos n st show ?thesis
      unfolding step unfolding e
      by (auto simp add: cooldown_expires_def attempts_restart_def)
  next
    case False
    show ?thesis
    proof (cases "is_cooldown_timer (pending cfg ! n)")
      case True
      from filter_pos [of n "pending cfg" is_cooldown_timer, OF n True]
      have pos: "1 \<le> pending_cooldowns cfg"
        unfolding pending_cooldowns_def by linarith
      from d True False pos n st show ?thesis
        unfolding step unfolding e
        by (auto simp add: cooldown_expires_def attempts_restart_def)
    next
      case nc: False
      from d False nc n st show ?thesis
        unfolding step unfolding e
        by (auto simp add: cooldown_expires_def attempts_restart_def)
    qed
  qed
next
  case False
  then have quiet: "\<not> attempts_restart e cfg" "\<not> cooldown_expires e cfg"
    by (cases e; auto simp add: attempts_restart_def cooldown_expires_def)+
  show ?thesis
  proof (cases e)
    case (Flush f)
    with flush_pending [of f cfg] quiet show ?thesis
      by (simp add: ci_step_def)
  next
    case (Fire n f p)
    with False have "ci_step e cfg = cfg"
      by (auto simp add: ci_step_def ci_dispatch_def)
    with quiet show ?thesis by simp
  qed (use quiet dispatch_other [of e cfg] in \<open>auto simp add: ci_step_def\<close>)
qed

lemma step_guard:
  assumes "pending_restarts cfg + pending_cooldowns cfg \<le> 1
           \<and> (1 \<le> pending_restarts cfg + pending_cooldowns cfg
                \<longrightarrow> hasAttemptedSpeechRecognition (cur cfg))"
  shows "pending_restarts (ci_step e cfg) + pending_cooldowns (ci_step e cfg) \<le> 1
         \<and> (1 \<le> pending_restarts (ci_step e cfg) + pending_cooldowns (ci_step e cfg)
              \<longrightarrow> hasAttemptedSpeechRecognition (cur (ci_step e cfg)))"
  using assms step_cases [of e cfg] by auto

lemma mounted_guard:
  "pending_restarts (ci_mounted f) = 0 \<and> pending_cooldowns (ci_mounted f) = 0"
  by (simp add: mounted_eq pending_restarts_def pending_cooldowns_def)

lemma reachable_guard:
  "ci_reachable cfg \<Longrightarrow>
     pending_restarts cfg + pending_cooldowns cfg \<le> 1
     \<and> (1 \<le> pending_restarts cfg + pending_cooldowns cfg
          \<longrightarrow> hasAttemptedSpeechRecognition (cur cfg))"
proof (induction rule: ci_reachable.induct)
  case (mounted f)
  show ?case using mounted_guard [of f] by simp
next
  case (step cfg e)
  from step_guard [OF step.IH] show ?case .
qed

lemma attempts_bounded:
  assumes "pending_restarts cfg + pending_cooldowns cfg \<le> 1
           \<and> (1 \<le> pending_restarts cfg + pending_cooldowns cfg
                \<longrightarrow> hasAttemptedSpeechRecognition (cur cfg))"
  shows "restart_attempts es cfg + pending_cooldowns cfg \<le> Suc (cooldown_expiries es cfg)"
  using assms
proof (induction es arbitrary: cfg)
  case Nil
  then show ?case by simp
next
  case (Cons e es)
  from Cons.IH [OF step_guard [OF Cons.prems, of e]]
  have ih: "restart_attempts es (ci_step e cfg) + pending_cooldowns (ci_step e cfg)
              \<le> Suc (cooldown_expiries es (ci_step e cfg))" .
  from step_cases [of e cfg] ih show ?case
    by auto
qed

lemma step_keeps_flag:
  "hasAttemptedSpeechRecognition (cur cfg) \<Longrightarrow> \<not> cooldown_expires e cfg \<Longrightarrow>
     hasAttemptedSpeechRecognition (cur (ci_step e cfg))"
  using step_cases [of e cfg] by auto

lemma attempt_sets_cooldown:
  assumes "attempts_restart e cfg"
  shows "(5000, CooldownTimer) \<in> set (pending (ci_step e cfg))"
proof -
  from assms obtain n f p where e: "e = Fire n f p" and n: "n < length (pending cfg)"
    and st: "settled cfg"
    and r: "is_restart_timer (pending cfg ! n)"
    and go: "0 < starts (snd (run_task (snd (pending cfg ! n)) f p (length (objects cfg))
                              (cur cfg)))"
    by (cases e) (auto simp add: attempts_restart_def)
  from r obtain d k c where pn: "pending cfg ! n = (d, RestartTimer k c)"
    by (cases "pending cfg ! n" rule: is_restart_timer.cases) auto
  from go pn have idle: "\<not> isPlaying c \<and> \<not> isGenerating c"
    by (auto simp add: restart_timer_def starts_def split: if_splits)
  show ?thesis
    using n pn idle st unfolding e
    by (simp add: ci_step_def ci_dispatch_def restart_timer_def)
qed

text \<open>
  C6, as the specification states it: after capture has ended unexpectedly there is at most
  one automatic restart attempt per idle window, where an idle window is a stretch of
  events in which no cooldown expires. It fails: \<open>onend\<close> also clears \<open>isListening\<close>, upon
  which the effect of lines 410-425 sets its 500 ms timer, whose callback calls
  \<open>startListening\<close> and so \<open>start()\<close>, and neither reads the one-shot flag. Here capture is
  running; it ends unexpectedly, is started again by way of the effect, and ends once more.
  In this window no cooldown expires, the flag is set at its end, and the user does
  nothing; \<open>start()\<close> is called three times, once by the 1000 ms callback of \<open>onend\<close> and
  twice by way of the effect.
\<close>

theorem restarts_without_cooldown:
  "(let before = ci_run [Fire 1 (''t1'', 1) Supported, Fire 0 (''t2'', 2) Supported,
                         Fire 0 (''t3'', 3) Supported, OnStart 0, Flush (''t4'', 4)]
                    (ci_mounted (''m0'', 0));
        window = [OnEnd 0, Flush (''t5'', 5), Fire 1 (''t6'', 6) Supported,
                  Fire 1 (''t7'', 7) Supported, OnStart 0, Flush (''t8'', 8),
                  Fire 0 (''t9'', 9) Supported, OnEnd 0, Flush (''t10'', 10),
                  Fire 1 (''t11'', 11) Supported, Fire 1 (''t12'', 12) Supported];
        cfg = ci_run window before
    in settled before \<and> isListening (cur before)
       \<and> filter is_user_event window = []
       \<and> cooldown_expiries window before = 0
       \<and> restart_attempts window before = 1
       \<and> hasAttemptedSpeechRecognition (cur cfg)
       \<and> filter is_start (commands before) = [RecognitionStart 0]
       \<and> filter is_start (commands cfg)
           = [RecognitionStart 0, RecognitionStart 0, RecognitionStart 0, RecognitionStart 0]
       \<and> starts (commands cfg) = starts (commands before) + 3)"
  by code_simp

text \<open>
  C6, amended: the recovery that \<open>onend\<close> makes itself is bounded by the flag. Count as a
  restart attempt every run of the 1000 ms callback of \<open>onend\<close> that calls
  \<open>recognition.start()\<close>, and as a cooldown expiry every run of the 5000 ms callback that
  clears \<open>hasAttemptedSpeechRecognition\<close>. From any state the component can reach, and along
  any sequence of events whatever:
  \<^item> the restart attempts are at most one more than the cooldown expiries; so in a window
    in which no cooldown expires there is at most one restart attempt;
  \<^item> a restart attempt is made with the one-shot flag set, and sets the 5000 ms cooldown;
  \<^item> once set, the flag stays set through every event but a cooldown expiry.
\<close>

theorem bounded_restart:
  assumes "ci_reachable cfg"
  shows "restart_attempts es cfg \<le> Suc (cooldown_expiries es cfg)
         \<and> (cooldown_expiries es cfg = 0 \<longrightarrow> restart_attempts es cfg \<le> 1)
         \<and> (attempts_restart e cfg \<longrightarrow>
               hasAttemptedSpeechRecognition (cur cfg)
               \<and> (5000, CooldownTimer) \<in> set (pending (ci_step e cfg)))
         \<and> (hasAttemptedSpeechRecognition (cur cfg) \<and> \<not> cooldown_expires e cfg \<longrightarrow>
               hasAttemptedSpeechRecognition (cur (ci_step e cfg)))"
proof -
  note guard = reachable_guard [OF assms]
  from attempts_bounded [OF guard, of es]
  have bound: "restart_attempts es cfg \<le> Suc (cooldown_expiries es cfg)"
    by simp
  have flag: "attempts_restart e cfg \<longrightarrow> hasAttemptedSpeechRecognition (cur cfg)"
    using guard step_cases [of e cfg] by auto
  from bound flag attempt_sets_cooldown [of e cfg] step_keeps_flag [of cfg e]
  show ?thesis by auto
qed

theorem bounded_restart_witness:
  "(let cfg = ci_run [Fire 1 (''t1'', 1) Supported, Fire 0 (''t2'', 2) Supported,
                      Fire 0 (''t3'', 3) Supported] (ci_mounted (''m0'', 0));
        attempt = Fire 0 (''t4'', 4) Supported;
        window = [OnEnd 0, attempt, OnStart 0, Flush (''t5'', 5)];
        longer = window @ [Fire 0 (''t6'', 6) Supported, OnEnd 0, Flush (''t7'', 7),
                           Fire 1 (''t8'', 8) Supported, Fire 1 (''t9'', 9) Supported,
                           Fire 0 (''t10'', 10) Supported];
        ended = ci_step (OnEnd 0) cfg;
        tried = ci_step attempt ended
    in ci_reachable cfg
       \<and> cooldown_expiries window cfg = 0 \<and> restart_attempts window cfg = 1
       \<and> cooldown_expiries longer cfg = 1 \<and> restart_attempts longer cfg = 2
       \<and> restart_attempts longer cfg \<le> Suc (cooldown_expiries longer cfg)
       \<and> ci_reachable ended \<and> attempts_restart attempt ended
       \<and> hasAttemptedSpeechRecognition (cur ended)
       \<and> (5000, CooldownTimer) \<in> set (pending tried)
       \<and> \<not> cooldown_expires (OnStart 0) tried
       \<and> hasAttemptedSpeechRecognition (cur (ci_step (OnStart 0) tried)))"
proof -
  let ?cfg = "ci_run [Fire 1 (''t1'', 1) Supported, Fire 0 (''t2'', 2) Supported,
                      Fire 0 (''t3'', 3) Supported] (ci_mounted (''m0'', 0))"
  let ?attempt = "Fire 0 (''t4'', 4) Supported"
  let ?window = "[OnEnd 0, ?attempt, OnStart 0, Flush (''t5'', 5)]"
  let ?longer = "?window @ [Fire 0 (''t6'', 6) Supported, OnEnd 0, Flush (''t7'', 7),
                           Fire 1 (''t8'', 8) Supported, Fire 1 (''t9'', 9) Supported,
                           Fire 0 (''t10'', 10) Supported]"
  let ?ended = "ci_step (OnEnd 0) ?cfg"
  let ?tried = "ci_step ?attempt ?ended"
  have r0: "ci_reachable ?cfg"
    by (rule run_reachable) (rule ci_reachable.mounted)
  have r1: "ci_reachable ?ended"
    by (rule ci_reachable.step [OF r0])
  have r2: "ci_reachable ?tried"
    by (rule ci_reachable.step [OF r1])
  have w: "cooldown_expiries ?window ?cfg = 0" "restart_attempts ?window ?cfg = 1"
    by code_simp+
  have l: "cooldown_expiries ?longer ?cfg = 1" "restart_attempts ?longer ?cfg = 2"
    by code_simp+
  have a: "attempts_restart ?attempt ?ended"
    by code_simp
  have q: "\<not> cooldown_expires (OnStart 0) ?tried"
    by (simp add: cooldown_expires_def)
  note first = bounded_restart [OF r0, of ?longer]
  note second = bounded_restart [OF r1, of "[]" ?attempt]
  note third = bounded_restart [OF r2, of "[]" "OnStart 0"]
  from second a have flag: "hasAttemptedSpeechRecognition (cur ?ended)"
    and cool: "(5000, CooldownTimer) \<in> set (pending ?tried)"
    by blast+
  have "\<not> cooldown_expires ?attempt ?ended"
    by code_simp
  with second flag have "hasAttemptedSpeechRecognition (cur ?tried)"
    by blast
  with third q have kept: "hasAttemptedSpeechRecognition (cur (ci_step (OnStart 0) ?tried))"
    by blast
  from first have bound: "restart_attempts ?longer ?cfg \<le> Suc (cooldown_expiries ?longer ?cfg)"
    by blast
  from r0 r1 w l a q flag cool kept bound show ?thesis
    unfolding Let_def by blast
qed

end
